theory Spec2Isabelle
  imports Main
begin

section \<open>JavaScript values that reach the handler\<close>

text \<open>
  Every value the handler inspects is the result of decoding JSON: the request body
  (\<^verbatim>\<open>await req.json()\<close>) and the upstream reply (\<^verbatim>\<open>await apiResponse.json()\<close>).
  Numbers are kept abstract (type \<open>'n\<close>); what the engine does with them is part of the
  platform record below. A string is a list of code units, restricted to those below 256.
  An object is the list of its own properties; \<open>map_of\<close> reads one.
  \<open>None\<close> of type \<open>'n json option\<close> is JavaScript's \<^verbatim>\<open>undefined\<close>.
\<close>

datatype 'n json =
    JNull
  | JBool bool
  | JNum 'n
  | JStr string
  | JArr "'n json list"
  | JObj "(string \<times> 'n json) list"

type_synonym 'n jsval = "'n json option"

text \<open>
  Errors the engine or the platform raises by itself, and the errors of the program:
  \<open>Thrown m\<close> is an error object whose message is \<open>m\<close> (\<^verbatim>\<open>new Error(m)\<close>, or the
  rejection of an awaited promise).
\<close>

datatype fault =
    ReadOfNull string
  | ReadOfUndefined string
  | NotAFunction string
  | NotPrimitive
  | StatusRange nat
  | NullBodyStatus nat
  | JsonSyntax string

datatype js_error = Thrown string | Engine fault

record 'n platform =
  num_truthy :: "'n \<Rightarrow> bool"
  num_to_string :: "'n \<Rightarrow> string"
  json_ok :: "string \<Rightarrow> bool"
  fault_message :: "fault \<Rightarrow> string"

fun message_of :: "'n platform \<Rightarrow> js_error \<Rightarrow> string" where
  "message_of pf (Thrown m) = m"
| "message_of pf (Engine f) = fault_message pf f"

text \<open>Truthiness, as \<^verbatim>\<open>!x\<close> and \<^verbatim>\<open>x || y\<close> see it.\<close>

fun truthy :: "'n platform \<Rightarrow> 'n jsval \<Rightarrow> bool" where
  "truthy pf None = False"
| "truthy pf (Some JNull) = False"
| "truthy pf (Some (JBool b)) = b"
| "truthy pf (Some (JNum n)) = num_truthy pf n"
| "truthy pf (Some (JStr s)) = (s \<noteq> [])"
| "truthy pf (Some (JArr xs)) = True"
| "truthy pf (Some (JObj kvs)) = True"

text \<open>
  \<^verbatim>\<open>v.name\<close> for one of the names the handlers read (ingredients, lang, error, message,
  candidates, content, parts, text): none of them is inherited from a prototype, so only
  an object can have it. Reading a property of null or undefined throws.
\<close>

fun get_prop :: "'n jsval \<Rightarrow> string \<Rightarrow> js_error + 'n jsval" where
  "get_prop None name = Inl (Engine (ReadOfUndefined name))"
| "get_prop (Some JNull) name = Inl (Engine (ReadOfNull name))"
| "get_prop (Some (JObj kvs)) name = Inr (map_of kvs name)"
| "get_prop (Some v) name = Inr None"

text \<open>\<^verbatim>\<open>v[0]\<close>: the first element of an array, the first code unit of a string, the
  property named 0 of an object.\<close>

fun get_index0 :: "'n jsval \<Rightarrow> js_error + 'n jsval" where
  "get_index0 None = Inl (Engine (ReadOfUndefined ''0''))"
| "get_index0 (Some JNull) = Inl (Engine (ReadOfNull ''0''))"
| "get_index0 (Some (JArr xs)) = Inr (case xs of [] \<Rightarrow> None | x # _ \<Rightarrow> Some x)"
| "get_index0 (Some (JStr s)) = Inr (case s of [] \<Rightarrow> None | c # _ \<Rightarrow> Some (JStr [c]))"
| "get_index0 (Some (JObj kvs)) = Inr (map_of kvs ''0'')"
| "get_index0 (Some v) = Inr None"

text \<open>Optional chaining, \<^verbatim>\<open>v?.name\<close> and \<^verbatim>\<open>v?.[0]\<close>: undefined on null and undefined.\<close>

fun nullish :: "'n jsval \<Rightarrow> bool" where
  "nullish None = True"
| "nullish (Some JNull) = True"
| "nullish (Some v) = False"

definition opt_prop :: "'n jsval \<Rightarrow> string \<Rightarrow> 'n jsval" where
  "opt_prop v name = (if nullish v then None else (case get_prop v name of Inl e \<Rightarrow> None | Inr w \<Rightarrow> w))"

definition opt_index0 :: "'n jsval \<Rightarrow> 'n jsval" where
  "opt_index0 v = (if nullish v then None else (case get_index0 v of Inl e \<Rightarrow> None | Inr w \<Rightarrow> w))"

text \<open>
  The conversion to a string that a template literal applies. An array joins its
  elements with commas, null elements as the empty string. An object converts to
  \<^verbatim>\<open>[object Object]\<close>, unless it has an own property \<^verbatim>\<open>toString\<close>: that property, decoded
  from JSON, is not callable, \<^verbatim>\<open>valueOf\<close> does not return a primitive either, and the
  conversion throws.
\<close>

fun join_strings :: "(js_error + string) list \<Rightarrow> js_error + string" where
  "join_strings [] = Inr []"
| "join_strings [r] = r"
| "join_strings (r # rs) =
     (case r of Inl e \<Rightarrow> Inl e
      | Inr s \<Rightarrow> (case join_strings rs of Inl e \<Rightarrow> Inl e | Inr t \<Rightarrow> Inr (s @ '','' @ t)))"

fun to_string :: "'n platform \<Rightarrow> 'n json \<Rightarrow> js_error + string" where
  "to_string pf JNull = Inr ''null''"
| "to_string pf (JBool b) = Inr (if b then ''true'' else ''false'')"
| "to_string pf (JNum n) = Inr (num_to_string pf n)"
| "to_string pf (JStr s) = Inr s"
| "to_string pf (JArr xs) =
     join_strings (map (\<lambda>x. if x = JNull then Inr [] else to_string pf x) xs)"
| "to_string pf (JObj kvs) =
     (if ''toString'' \<in> fst ` set kvs then Inl (Engine NotPrimitive)
      else Inr ''[object Object]'')"

section \<open>The text transformations of the cleaning step\<close>

text \<open>
  \<^verbatim>\<open>text.replace(/```json|```/g, '')\<close>: scanning from the left, at every position the
  first alternative that matches is removed and the scan goes on after it.
\<close>

function strip_fences :: "string \<Rightarrow> string" where
  "strip_fences [] = []"
| "strip_fences (c # cs) =
     (if take 7 (c # cs) = ''```json'' then strip_fences (drop 7 (c # cs))
      else if take 3 (c # cs) = ''```'' then strip_fences (drop 3 (c # cs))
      else c # strip_fences cs)"
  by pat_completeness auto
termination
  by (relation "measure length") auto

text \<open>\<^verbatim>\<open>trim()\<close> removes white space and line terminators at both ends; among the code
  units below 256 these are tab, line feed, vertical tab, form feed, carriage return,
  space and the no-break space.\<close>

definition is_js_space :: "char \<Rightarrow> bool" where
  "is_js_space c = (c \<in> {CHR 0x09, CHR 0x0A, CHR 0x0B, CHR 0x0C, CHR 0x0D, CHR 0x20, CHR 0xA0})"

definition trim :: "string \<Rightarrow> string" where
  "trim s = rev (dropWhile is_js_space (rev (dropWhile is_js_space s)))"

definition clean_json :: "string \<Rightarrow> string" where
  "clean_json t = trim (strip_fences t)"

section \<open>Requests, upstream replies and responses\<close>

text \<open>
  The inbound request as the handler sees it: \<open>body\<close> is what \<^verbatim>\<open>await req.json()\<close>
  gives, \<open>Inl m\<close> when it rejects with message \<open>m\<close>. The handler reads the method and
  the body of a request and nothing else.
\<close>

record 'n request =
  req_method :: string
  url :: string
  req_headers :: "(string \<times> string) list"
  body :: "string + 'n json"

text \<open>
  What the one outbound call does: \<open>FetchRejected m\<close> when \<^verbatim>\<open>fetch\<close> rejects, else the
  status of the reply and the result of \<^verbatim>\<open>await apiResponse.json()\<close>.
\<close>

datatype 'n upstream = FetchRejected string | Reply nat "string + 'n json"

definition reply_ok :: "nat \<Rightarrow> bool" where
  "reply_ok st = (200 \<le> st \<and> st \<le> 299)"

text \<open>The body of a response: a string as it is, \<^verbatim>\<open>JSON.stringify\<close> of a value, or
  \<^verbatim>\<open>JSON.stringify\<close> of the value that \<^verbatim>\<open>JSON.parse\<close> decodes from a string.\<close>

datatype 'n payload = Text string | Stringify "'n json" | Restringify string

record 'n response =
  status :: nat
  headers :: "(string \<times> string) list"
  content :: "'n payload"

text \<open>
  \<^verbatim>\<open>new Response(body, {status, headers})\<close> with a body that is not null: the constructor
  throws a RangeError for a status outside 200..599 and a TypeError for a status that
  allows no body.
\<close>

definition new_response ::
  "'n payload \<Rightarrow> nat \<Rightarrow> (string \<times> string) list \<Rightarrow> js_error + 'n response" where
  "new_response b st hs =
     (if st < 200 \<or> 599 < st then Inl (Engine (StatusRange st))
      else if st \<in> {204, 205, 304} then Inl (Engine (NullBodyStatus st))
      else Inr \<lparr>status = st, headers = hs, content = b\<rparr>)"

text \<open>An object literal handed to \<^verbatim>\<open>JSON.stringify\<close>: a property whose value is undefined
  is left out.\<close>

definition js_object :: "(string \<times> 'n jsval) list \<Rightarrow> 'n json" where
  "js_object props = JObj (concat (map (\<lambda>(k, v). case v of None \<Rightarrow> [] | Some w \<Rightarrow> [(k, w)]) props))"

definition js_or :: "'n platform \<Rightarrow> 'n jsval \<Rightarrow> 'n jsval \<Rightarrow> 'n jsval" where
  "js_or pf x y = (if truthy pf x then x else y)"

fun to_string_val :: "'n platform \<Rightarrow> 'n jsval \<Rightarrow> js_error + string" where
  "to_string_val pf None = Inr ''undefined''"
| "to_string_val pf (Some v) = to_string pf v"

text \<open>What the handler does to the outside: it reads the request body, and it calls the
  generation API at a URL with a JSON payload.\<close>

datatype 'n effect = ReadBody | Fetch string "'n json"

section \<open>The Netlify handler\<close>

definition cors_headers :: "(string \<times> string) list" where
  "cors_headers =
     [(''Access-Control-Allow-Origin'', ''*''),
      (''Access-Control-Allow-Methods'', ''POST, OPTIONS''),
      (''Access-Control-Allow-Headers'', ''Content-Type''),
      (''Content-Type'', ''application/json'')]"

definition MODEL_NAME :: string where
  "MODEL_NAME = ''gemini-2.0-flash''"

definition error_body :: "string \<Rightarrow> string \<Rightarrow> 'n payload" where
  "error_body e m = Stringify (js_object [(''error'', Some (JStr e)), (''message'', Some (JStr m))])"

definition error_body_details :: "string \<Rightarrow> 'n jsval \<Rightarrow> string \<Rightarrow> 'n payload" where
  "error_body_details e d m =
     Stringify (js_object [(''error'', Some (JStr e)), (''details'', d), (''message'', Some (JStr m))])"

text \<open>
  Step 4, the first \<^verbatim>\<open>try\<close> block: \<open>Inl r\<close> when the handler returns \<open>r\<close> there,
  \<open>Inr (ingredients, lang)\<close> when it goes on. Whatever is thrown inside, by
  \<^verbatim>\<open>req.json()\<close> or by reading a property of null, is caught and answered with 400.
\<close>

definition read_fields :: "'n request \<Rightarrow> js_error + ('n jsval \<times> 'n jsval)" where
  "read_fields req =
     (case body req of
        Inl m \<Rightarrow> Inl (Thrown m)
      | Inr b \<Rightarrow>
          (case get_prop (Some b) ''ingredients'' of
             Inl e \<Rightarrow> Inl e
           | Inr ingredients \<Rightarrow>
               (case get_prop (Some b) ''lang'' of
                  Inl e \<Rightarrow> Inl e
                | Inr l \<Rightarrow> Inr (ingredients, l))))"

definition parse_request ::
  "'n platform \<Rightarrow> 'n request \<Rightarrow> (js_error + 'n response) + ('n jsval \<times> 'n jsval)" where
  "parse_request pf req =
     (case read_fields req of
        Inl e \<Rightarrow>
          Inl (new_response (error_body ''Invalid JSON body'' ''Invalid request format.'') 400 cors_headers)
      | Inr (ingredients, l) \<Rightarrow>
          (let lang = js_or pf l (Some (JStr ''ar'')) in
           if \<not> truthy pf ingredients
           then Inl (new_response
                  (error_body ''Missing required field: ingredients'' ''Please provide ingredients.'')
                  400 cors_headers)
           else Inr (ingredients, lang)))"

text \<open>Step 5, the prompt: a template literal around the two values.\<close>

definition prompt_head :: string where
  \<open>prompt_head =
     ''\<newline>        Role: Expert Chef.\<newline>        Task: Create 2 creative recipes using these ingredients: "''\<close>

definition prompt_mid :: string where
  \<open>prompt_mid =
     ''".\<newline>        Language: Response MUST be in the language code provided: ''\<close>

definition prompt_tail :: string where
  \<open>prompt_tail =
     ''.\<newline>        Constraint: Return ONLY a valid JSON array. No markdown, no introduction.\<newline>        JSON Structure: [{"title": "Name", "desc": "Short description", "time": "30 min", "ingredients": ["Item 1", "Item 2"], "steps": ["Step 1", "Step 2"]}]\<newline>    ''\<close>

definition build_prompt :: "'n platform \<Rightarrow> 'n jsval \<Rightarrow> 'n jsval \<Rightarrow> js_error + string" where
  "build_prompt pf ingredients lang =
     (case to_string_val pf ingredients of
        Inl e \<Rightarrow> Inl e
      | Inr i \<Rightarrow>
          (case to_string_val pf lang of
             Inl e \<Rightarrow> Inl e
           | Inr l \<Rightarrow> Inr (prompt_head @ i @ prompt_mid @ l @ prompt_tail)))"

text \<open>Step 6, the outbound call.\<close>

definition api_url :: "string \<Rightarrow> string \<Rightarrow> string" where
  "api_url model key =
     ''https://generativelanguage.googleapis.com/v1beta/models/'' @ model
       @ '':generateContent?key='' @ key"

definition request_payload :: "string \<Rightarrow> 'n json" where
  "request_payload prompt =
     JObj [(''contents'', JArr [JObj [(''parts'', JArr [JObj [(''text'', JStr prompt)]])]]),
           (''generationConfig'', JObj [(''responseMimeType'', JStr ''application/json'')])]"

text \<open>The branch taken when the call did not succeed or the reply carries an error.\<close>

definition upstream_failure :: "'n platform \<Rightarrow> nat \<Rightarrow> 'n json \<Rightarrow> js_error + 'n response" where
  "upstream_failure pf st responseJson =
     (case get_prop (Some responseJson) ''error'' of
        Inl e \<Rightarrow> Inl e
      | Inr err \<Rightarrow>
          (let details = js_or pf (opt_prop err ''message'') (Some (JStr ''Unknown error'')) in
           case to_string_val pf details of
             Inl e \<Rightarrow> Inl e
           | Inr m \<Rightarrow>
               new_response
                 (error_body_details ''Gemini API failed'' details (''Gemini API Error: '' @ m))
                 (if st = 0 then 500 else st) cors_headers))"

text \<open>\<^verbatim>\<open>responseJson.candidates?.[0]?.content?.parts?.[0]?.text\<close>\<close>

definition candidate_text :: "'n json \<Rightarrow> js_error + 'n jsval" where
  "candidate_text responseJson =
     (case get_prop (Some responseJson) ''candidates'' of
        Inl e \<Rightarrow> Inl e
      | Inr c \<Rightarrow>
          Inr (opt_prop (opt_index0 (opt_prop (opt_prop (opt_index0 c) ''content'') ''parts'')) ''text''))"

text \<open>The cleaning and the validation of the text; \<^verbatim>\<open>replace\<close> exists on a string only.\<close>

definition clean_and_validate :: "'n platform \<Rightarrow> 'n jsval \<Rightarrow> js_error + 'n response" where
  "clean_and_validate pf candidateText =
     (if \<not> truthy pf candidateText then Inl (Thrown ''No content generated'')
      else case candidateText of
             Some (JStr t) \<Rightarrow>
               (let cleanJson = clean_json t in
                if json_ok pf cleanJson then new_response (Text cleanJson) 200 cors_headers
                else Inl (Engine (JsonSyntax cleanJson)))
           | _ \<Rightarrow> Inl (Engine (NotAFunction ''candidateText.replace'')))"

text \<open>The second \<^verbatim>\<open>try\<close> block, from the reply of \<^verbatim>\<open>fetch\<close> on.\<close>

definition process_reply :: "'n platform \<Rightarrow> 'n upstream \<Rightarrow> js_error + 'n response" where
  "process_reply pf up =
     (case up of
        FetchRejected m \<Rightarrow> Inl (Thrown m)
      | Reply st decoded \<Rightarrow>
          (case decoded of
             Inl m \<Rightarrow> Inl (Thrown m)
           | Inr responseJson \<Rightarrow>
               if \<not> reply_ok st then upstream_failure pf st responseJson
               else (case get_prop (Some responseJson) ''error'' of
                       Inl e \<Rightarrow> Inl e
                     | Inr err \<Rightarrow>
                         if truthy pf err then upstream_failure pf st responseJson
                         else (case candidate_text responseJson of
                                 Inl e \<Rightarrow> Inl e
                               | Inr candidateText \<Rightarrow> clean_and_validate pf candidateText))))"

text \<open>Its \<^verbatim>\<open>catch\<close>: whatever was thrown becomes a Processing Error.\<close>

definition call_and_clean :: "'n platform \<Rightarrow> 'n upstream \<Rightarrow> js_error + 'n response" where
  "call_and_clean pf up =
     (case process_reply pf up of
        Inl e \<Rightarrow>
          new_response
            (error_body_details ''Processing Error'' (Some (JStr (message_of pf e)))
               ''Failed to process AI response.'')
            500 cors_headers
      | Inr r \<Rightarrow> Inr r)"

text \<open>
  The handler: the environment variable (\<open>None\<close> when it is not set), the request and the
  behaviour of the upstream call give the effects performed and the result, \<open>Inl e\<close> when
  the handler itself throws \<open>e\<close>.
\<close>

definition config_error :: "js_error + 'n response" where
  "config_error =
     new_response
       (error_body ''Configuration Error''
          ''Configuration Error: GEMINI_API_KEY is not set on the server.'')
       500 cors_headers"

definition serve ::
  "'n platform \<Rightarrow> string \<Rightarrow> 'n request \<Rightarrow> 'n upstream
     \<Rightarrow> 'n effect list \<times> (js_error + 'n response)" where
  "serve pf API_KEY req up =
     (if req_method req \<noteq> ''POST''
      then ([], new_response
                  (error_body ''Method Not Allowed'' ''Method Not Allowed. Use POST.'')
                  405 cors_headers)
      else (case parse_request pf req of
              Inl r \<Rightarrow> ([ReadBody], r)
            | Inr (ingredients, lang) \<Rightarrow>
                (case build_prompt pf ingredients lang of
                   Inl e \<Rightarrow> ([ReadBody], Inl e)
                 | Inr prompt \<Rightarrow>
                     ([ReadBody, Fetch (api_url MODEL_NAME API_KEY) (request_payload prompt)],
                      call_and_clean pf up))))"

definition handler ::
  "'n platform \<Rightarrow> string option \<Rightarrow> 'n request \<Rightarrow> 'n upstream
     \<Rightarrow> 'n effect list \<times> (js_error + 'n response)" where
  "handler pf env req up =
     (if req_method req = ''OPTIONS'' then ([], new_response (Text []) 200 cors_headers)
      else case env of
             None \<Rightarrow> ([], config_error)
           | Some API_KEY \<Rightarrow>
               if API_KEY = [] then ([], config_error) else serve pf API_KEY req up)"

section \<open>The Vercel handler\<close>

text \<open>
  The second handler is called with a request and a response object. \<open>body\<close> of the
  request is here what \<^verbatim>\<open>req.body\<close> gives, \<open>Inl m\<close> when the platform could not decode
  the body (reading \<^verbatim>\<open>req.body\<close> throws, or gives undefined and the next property read
  throws). The key is read from the environment when the module is loaded.
\<close>

definition MODEL_NAME_vercel :: string where
  "MODEL_NAME_vercel = ''gemini-2.5-flash-preview-09-2025''"

definition res_headers :: "(string \<times> string) list" where
  "res_headers =
     [(''Access-Control-Allow-Origin'', ''*''),
      (''Access-Control-Allow-Methods'', ''POST, OPTIONS''),
      (''Access-Control-Allow-Headers'', ''Content-Type'')]"

text \<open>
  \<^verbatim>\<open>res.status(st).end()\<close> and \<^verbatim>\<open>res.status(st).json(v)\<close> on Node's server response:
  writing the head throws a RangeError for a status outside 100..999, and a status of
  100..199, 204 or 304 sends no body. The body of \<^verbatim>\<open>json\<close> is given as a payload, so that
  \<open>Restringify t\<close> can stand for \<^verbatim>\<open>JSON.stringify(JSON.parse(t))\<close>.
\<close>

definition no_body_status :: "nat \<Rightarrow> bool" where
  "no_body_status st = ((100 \<le> st \<and> st \<le> 199) \<or> st = 204 \<or> st = 304)"

definition res_end :: "nat \<Rightarrow> js_error + 'n response" where
  "res_end st =
     (if st < 100 \<or> 999 < st then Inl (Engine (StatusRange st))
      else Inr \<lparr>status = st, headers = res_headers, content = Text []\<rparr>)"

definition res_json :: "nat \<Rightarrow> 'n payload \<Rightarrow> js_error + 'n response" where
  "res_json st b =
     (if st < 100 \<or> 999 < st then Inl (Engine (StatusRange st))
      else Inr \<lparr>status = st,
                headers = res_headers @ [(''Content-Type'', ''application/json; charset=utf-8'')],
                content = (if no_body_status st then Text [] else b)\<rparr>)"

definition vercel_error :: "string \<Rightarrow> 'n payload" where
  "vercel_error e = Stringify (js_object [(''error'', Some (JStr e))])"

definition vercel_error_details :: "string \<Rightarrow> 'n jsval \<Rightarrow> 'n payload" where
  "vercel_error_details e d = Stringify (js_object [(''error'', Some (JStr e)), (''details'', d)])"

definition vercel_parse_request ::
  "'n platform \<Rightarrow> 'n request \<Rightarrow> (js_error + 'n response) + ('n jsval \<times> 'n jsval)" where
  "vercel_parse_request pf req =
     (case read_fields req of
        Inl e \<Rightarrow> Inl (res_json 400 (vercel_error ''Invalid JSON body''))
      | Inr (ingredients, l) \<Rightarrow>
          (let lang = js_or pf l (Some (JStr ''ar'')) in
           if \<not> truthy pf ingredients
           then Inl (res_json 400 (vercel_error ''Missing required field: ingredients''))
           else Inr (ingredients, lang)))"

definition vercel_upstream_failure :: "'n platform \<Rightarrow> nat \<Rightarrow> 'n json \<Rightarrow> js_error + 'n response" where
  "vercel_upstream_failure pf st data =
     (case get_prop (Some data) ''error'' of
        Inl e \<Rightarrow> Inl e
      | Inr err \<Rightarrow>
          res_json st
            (vercel_error_details ''Gemini API failed to process request.''
               (js_or pf (opt_prop err ''message'') (Some (JStr ''Unknown error.'')))))"

text \<open>\<^verbatim>\<open>data.candidates[0].content.parts[0].text\<close>, every step of which throws on null and
  undefined.\<close>

definition and_then :: "'e + 'a \<Rightarrow> ('a \<Rightarrow> 'e + 'b) \<Rightarrow> 'e + 'b" where
  "and_then r f = (case r of Inl e \<Rightarrow> Inl e | Inr x \<Rightarrow> f x)"

definition vercel_candidate_text :: "'n json \<Rightarrow> js_error + 'n jsval" where
  "vercel_candidate_text data =
     and_then (get_prop (Some data) ''candidates'') (\<lambda>c.
     and_then (get_index0 c) (\<lambda>c0.
     and_then (get_prop c0 ''content'') (\<lambda>ct.
     and_then (get_prop ct ''parts'') (\<lambda>ps.
     and_then (get_index0 ps) (\<lambda>p0.
     get_prop p0 ''text'')))))"

definition vercel_clean_and_send :: "'n platform \<Rightarrow> 'n jsval \<Rightarrow> js_error + 'n response" where
  "vercel_clean_and_send pf t =
     (case t of
        None \<Rightarrow> Inl (Engine (ReadOfUndefined ''replace''))
      | Some JNull \<Rightarrow> Inl (Engine (ReadOfNull ''replace''))
      | Some (JStr s) \<Rightarrow>
          (let cleanJson = clean_json s in
           if json_ok pf cleanJson then res_json 200 (Restringify cleanJson)
           else Inl (Engine (JsonSyntax cleanJson)))
      | Some v \<Rightarrow> Inl (Engine (NotAFunction ''data.candidates[0].content.parts[0].text.replace'')))"

definition vercel_process_reply :: "'n platform \<Rightarrow> 'n upstream \<Rightarrow> js_error + 'n response" where
  "vercel_process_reply pf up =
     (case up of
        FetchRejected m \<Rightarrow> Inl (Thrown m)
      | Reply st decoded \<Rightarrow>
          (case decoded of
             Inl m \<Rightarrow> Inl (Thrown m)
           | Inr data \<Rightarrow>
               if \<not> reply_ok st then vercel_upstream_failure pf st data
               else (case get_prop (Some data) ''error'' of
                       Inl e \<Rightarrow> Inl e
                     | Inr err \<Rightarrow>
                         if truthy pf err then vercel_upstream_failure pf st data
                         else and_then (vercel_candidate_text data) (vercel_clean_and_send pf))))"

definition vercel_call_and_clean :: "'n platform \<Rightarrow> 'n upstream \<Rightarrow> js_error + 'n response" where
  "vercel_call_and_clean pf up =
     (case vercel_process_reply pf up of
        Inl e \<Rightarrow>
          res_json 500
            (vercel_error_details ''Internal Server Error during AI processing.''
               (Some (JStr (message_of pf e))))
      | Inr r \<Rightarrow> Inr r)"

definition vercel_serve ::
  "'n platform \<Rightarrow> string \<Rightarrow> 'n request \<Rightarrow> 'n upstream
     \<Rightarrow> 'n effect list \<times> (js_error + 'n response)" where
  "vercel_serve pf API_KEY req up =
     (if req_method req \<noteq> ''POST'' then ([], res_json 405 (vercel_error ''Method Not Allowed''))
      else (case vercel_parse_request pf req of
              Inl r \<Rightarrow> ([ReadBody], r)
            | Inr (ingredients, lang) \<Rightarrow>
                (case build_prompt pf ingredients lang of
                   Inl e \<Rightarrow> ([ReadBody], Inl e)
                 | Inr prompt \<Rightarrow>
                     ([ReadBody,
                       Fetch (api_url MODEL_NAME_vercel API_KEY) (request_payload prompt)],
                      vercel_call_and_clean pf up))))"

definition vercel_config_error :: "js_error + 'n response" where
  "vercel_config_error =
     res_json 500
       (vercel_error ''Configuration Error: GEMINI_API_KEY is not set on the server.'')"

definition vercel_handler ::
  "'n platform \<Rightarrow> string option \<Rightarrow> 'n request \<Rightarrow> 'n upstream
     \<Rightarrow> 'n effect list \<times> (js_error + 'n response)" where
  "vercel_handler pf env req up =
     (if req_method req = ''OPTIONS'' then ([], res_end 200)
      else case env of
             None \<Rightarrow> ([], vercel_config_error)
           | Some API_KEY \<Rightarrow>
               if API_KEY = [] then ([], vercel_config_error)
               else vercel_serve pf API_KEY req up)"

section \<open>A reference platform\<close>

text \<open>
  The theorems below hold for every platform record. Their instances at concrete inputs
  are evaluated on this one: its numbers are the integers, and its \<^verbatim>\<open>JSON.parse\<close> accepts
  the JSON grammar of ECMA-404, recognised one code unit at a time with a stack of the
  arrays and objects that are open.
\<close>

datatype container = InArray | InObject

datatype mode =
    ExpValue
  | ExpValueOrClose
  | ExpKeyOrClose
  | ExpKey
  | ExpColon
  | AfterValue
  | InString bool
  | InEscape bool
  | InUnicode bool nat
  | Literal string
  | NumMinus
  | NumZero
  | NumInt
  | NumDot
  | NumFrac
  | NumE
  | NumESign
  | NumExp

definition is_json_space :: "char \<Rightarrow> bool" where
  "is_json_space c = (c \<in> {CHR 0x20, CHR 0x09, CHR 0x0A, CHR 0x0D})"

definition is_digit :: "char \<Rightarrow> bool" where
  "is_digit c = (c \<in> set ''0123456789'')"

definition is_hex_digit :: "char \<Rightarrow> bool" where
  "is_hex_digit c = (c \<in> set ''0123456789abcdefABCDEF'')"

definition is_control :: "char \<Rightarrow> bool" where
  "is_control c = ((of_char c :: nat) < 32)"

definition after_value :: "container list \<Rightarrow> char \<Rightarrow> (mode \<times> container list) option" where
  "after_value stack c =
     (if is_json_space c then Some (AfterValue, stack)
      else case stack of
             [] \<Rightarrow> None
           | InArray # rest \<Rightarrow>
               if c = CHR '','' then Some (ExpValue, stack)
               else if c = CHR '']'' then Some (AfterValue, rest)
               else None
           | InObject # rest \<Rightarrow>
               if c = CHR '','' then Some (ExpKey, stack)
               else if c = CHR ''}'' then Some (AfterValue, rest)
               else None)"

definition value_start :: "container list \<Rightarrow> char \<Rightarrow> (mode \<times> container list) option" where
  \<open>value_start stack c =
     (if c = CHR ''{'' then Some (ExpKeyOrClose, InObject # stack)
      else if c = CHR ''['' then Some (ExpValueOrClose, InArray # stack)
      else if c = CHR 0x22 then Some (InString False, stack)
      else if c = CHR ''-'' then Some (NumMinus, stack)
      else if c = CHR ''0'' then Some (NumZero, stack)
      else if is_digit c then Some (NumInt, stack)
      else if c = CHR ''t'' then Some (Literal ''rue'', stack)
      else if c = CHR ''f'' then Some (Literal ''alse'', stack)
      else if c = CHR ''n'' then Some (Literal ''ull'', stack)
      else None)\<close>

fun json_step :: "mode \<times> container list \<Rightarrow> char \<Rightarrow> (mode \<times> container list) option" where
  "json_step (ExpValue, stack) c =
     (if is_json_space c then Some (ExpValue, stack) else value_start stack c)"
| "json_step (ExpValueOrClose, stack) c =
     (if is_json_space c then Some (ExpValueOrClose, stack)
      else if c = CHR '']'' then Some (AfterValue, tl stack)
      else value_start stack c)"
| "json_step (ExpKeyOrClose, stack) c =
     (if is_json_space c then Some (ExpKeyOrClose, stack)
      else if c = CHR ''}'' then Some (AfterValue, tl stack)
      else if c = CHR 0x22 then Some (InString True, stack)
      else None)"
| "json_step (ExpKey, stack) c =
     (if is_json_space c then Some (ExpKey, stack)
      else if c = CHR 0x22 then Some (InString True, stack)
      else None)"
| "json_step (ExpColon, stack) c =
     (if is_json_space c then Some (ExpColon, stack)
      else if c = CHR '':'' then Some (ExpValue, stack)
      else None)"
| "json_step (AfterValue, stack) c = after_value stack c"
| "json_step (InString key, stack) c =
     (if c = CHR 0x22 then Some (if key then ExpColon else AfterValue, stack)
      else if c = CHR 0x5C then Some (InEscape key, stack)
      else if is_control c then None
      else Some (InString key, stack))"
| "json_step (InEscape key, stack) c =
     (if c \<in> {CHR 0x22, CHR 0x5C, CHR ''/'', CHR ''b'', CHR ''f'', CHR ''n'', CHR ''r'', CHR ''t''}
      then Some (InString key, stack)
      else if c = CHR ''u'' then Some (InUnicode key 4, stack)
      else None)"
| "json_step (InUnicode key n, stack) c =
     (if is_hex_digit c then Some (if n \<le> 1 then InString key else InUnicode key (n - 1), stack)
      else None)"
| "json_step (Literal rest, stack) c =
     (case rest of
        [] \<Rightarrow> None
      | x # xs \<Rightarrow>
          if c = x then Some (if xs = [] then AfterValue else Literal xs, stack) else None)"
| "json_step (NumMinus, stack) c =
     (if c = CHR ''0'' then Some (NumZero, stack)
      else if is_digit c then Some (NumInt, stack)
      else None)"
| "json_step (NumZero, stack) c =
     (if c = CHR ''.'' then Some (NumDot, stack)
      else if c = CHR ''e'' \<or> c = CHR ''E'' then Some (NumE, stack)
      else after_value stack c)"
| "json_step (NumInt, stack) c =
     (if is_digit c then Some (NumInt, stack)
      else if c = CHR ''.'' then Some (NumDot, stack)
      else if c = CHR ''e'' \<or> c = CHR ''E'' then Some (NumE, stack)
      else after_value stack c)"
| "json_step (NumDot, stack) c = (if is_digit c then Some (NumFrac, stack) else None)"
| "json_step (NumFrac, stack) c =
     (if is_digit c then Some (NumFrac, stack)
      else if c = CHR ''e'' \<or> c = CHR ''E'' then Some (NumE, stack)
      else after_value stack c)"
| "json_step (NumE, stack) c =
     (if c = CHR ''+'' \<or> c = CHR ''-'' then Some (NumESign, stack)
      else if is_digit c then Some (NumExp, stack)
      else None)"
| "json_step (NumESign, stack) c = (if is_digit c then Some (NumExp, stack) else None)"
| "json_step (NumExp, stack) c =
     (if is_digit c then Some (NumExp, stack) else after_value stack c)"

fun json_run :: "mode \<times> container list \<Rightarrow> string \<Rightarrow> (mode \<times> container list) option" where
  "json_run st [] = Some st"
| "json_run st (c # cs) = (case json_step st c of None \<Rightarrow> None | Some st' \<Rightarrow> json_run st' cs)"

definition complete :: "mode \<Rightarrow> bool" where
  "complete m = (m \<in> {AfterValue, NumZero, NumInt, NumFrac, NumExp})"

definition json_wellformed :: "string \<Rightarrow> bool" where
  "json_wellformed s =
     (case json_run (ExpValue, []) s of
        Some (m, []) \<Rightarrow> complete m
      | _ \<Rightarrow> False)"

function digits_of :: "nat \<Rightarrow> string" where
  "digits_of n =
     (if n < 10 then [''0123456789'' ! n]
      else digits_of (n div 10) @ [''0123456789'' ! (n mod 10)])"
  by pat_completeness auto
termination
  by (relation "measure id") auto

definition int_to_string :: "int \<Rightarrow> string" where
  "int_to_string i = (if i < 0 then ''-'' @ digits_of (nat (- i)) else digits_of (nat i))"

fun engine_message :: "fault \<Rightarrow> string" where
  "engine_message (ReadOfNull name) = ''Cannot read properties of null (reading '' @ name @ '')''"
| "engine_message (ReadOfUndefined name) =
     ''Cannot read properties of undefined (reading '' @ name @ '')''"
| "engine_message (NotAFunction name) = name @ '' is not a function''"
| "engine_message NotPrimitive = ''Cannot convert object to primitive value''"
| "engine_message (StatusRange st) = ''status must be in the range of 200 to 599''"
| "engine_message (NullBodyStatus st) = ''Invalid response status code '' @ digits_of st"
| "engine_message (JsonSyntax t) = ''Unexpected token in JSON''"

definition engine :: "int platform" where
  "engine =
     \<lparr>num_truthy = (\<lambda>n. n \<noteq> 0),
      num_to_string = int_to_string,
      json_ok = json_wellformed,
      fault_message = engine_message\<rparr>"

section \<open>Observations on results, and example inputs\<close>

text \<open>The \<^verbatim>\<open>error\<close> and the \<^verbatim>\<open>details\<close> property of a JSON error body.\<close>

definition error_category :: "'n response \<Rightarrow> string option" where
  "error_category r =
     (case content r of
        Stringify (JObj kvs) \<Rightarrow> (case map_of kvs ''error'' of Some (JStr e) \<Rightarrow> Some e | _ \<Rightarrow> None)
      | _ \<Rightarrow> None)"

definition error_details :: "'n response \<Rightarrow> 'n jsval" where
  "error_details r =
     (case content r of Stringify (JObj kvs) \<Rightarrow> map_of kvs ''details'' | _ \<Rightarrow> None)"

text \<open>The status a caller sees; \<open>None\<close> when the handler throws.\<close>

fun outcome_status :: "js_error + 'n response \<Rightarrow> nat option" where
  "outcome_status (Inl e) = None"
| "outcome_status (Inr r) = Some (status r)"

text \<open>The prompt of a request that passes step 4 and whose values convert to strings.\<close>

definition prompt_of :: "'n platform \<Rightarrow> 'n request \<Rightarrow> string option" where
  "prompt_of pf req =
     (case parse_request pf req of
        Inl r \<Rightarrow> None
      | Inr (ingredients, lang) \<Rightarrow>
          (case build_prompt pf ingredients lang of Inl e \<Rightarrow> None | Inr p \<Rightarrow> Some p))"

text \<open>A text has a fence when three backquotes occur in it somewhere.\<close>

fun has_fence :: "string \<Rightarrow> bool" where
  "has_fence [] = False"
| "has_fence (c # cs) = (take 3 (c # cs) = ''```'' \<or> has_fence cs)"

text \<open>The statuses that \<^verbatim>\<open>new Response\<close> accepts together with a body.\<close>

definition relayable :: "nat \<Rightarrow> bool" where
  "relayable st = (200 \<le> st \<and> st \<le> 599 \<and> st \<notin> {204, 205, 304})"

text \<open>
  The upstream replies on which the two handlers can be compared: a decoded reply has a
  status that both platforms send with a body, and its error message, if it has one,
  converts to a string.
\<close>

fun comparable_reply :: "'n platform \<Rightarrow> 'n upstream \<Rightarrow> bool" where
  "comparable_reply pf (FetchRejected m) = True"
| "comparable_reply pf (Reply st (Inl m)) = True"
| "comparable_reply pf (Reply st (Inr responseJson)) =
     (relayable st \<and>
      (case get_prop (Some responseJson) ''error'' of
         Inl e \<Rightarrow> True
       | Inr err \<Rightarrow>
           (case to_string_val pf (opt_prop err ''message'') of Inl e \<Rightarrow> False | Inr m \<Rightarrow> True)))"

definition example_request :: "string \<Rightarrow> string + int json \<Rightarrow> int request" where
  "example_request m b = \<lparr>req_method = m, url = ''/api/generate'', req_headers = [], body = b\<rparr>"

definition recipe_body :: "int json" where
  "recipe_body = JObj [(''ingredients'', JStr ''eggs, rice'')]"

definition text_reply :: "nat \<Rightarrow> string \<Rightarrow> int upstream" where
  "text_reply st t =
     Reply st (Inr (JObj [(''candidates'',
       JArr [JObj [(''content'', JObj [(''parts'', JArr [JObj [(''text'', JStr t)]])])]])]))"

definition error_reply :: "nat \<Rightarrow> string \<Rightarrow> int upstream" where
  "error_reply st m = Reply st (Inr (JObj [(''error'', JObj [(''message'', JStr m)])]))"

text \<open>Two results of a \<^verbatim>\<open>try\<close> block agree when both throw or both return the same status.\<close>

definition agree :: "js_error + 'n response \<Rightarrow> js_error + 'n response \<Rightarrow> bool" where
  "agree a b = ((isl a \<and> isl b) \<or> (\<exists>r r'. a = Inr r \<and> b = Inr r' \<and> status r = status r'))"

section \<open>Evaluation of the handlers\<close>

lemmas netlify_defs =
  handler_def serve_def config_error_def parse_request_def read_fields_def build_prompt_def
  call_and_clean_def process_reply_def upstream_failure_def candidate_text_def
  clean_and_validate_def new_response_def error_body_def error_body_details_def js_object_def
  js_or_def opt_prop_def opt_index0_def reply_ok_def clean_json_def trim_def is_js_space_def

lemmas vercel_defs =
  vercel_handler_def vercel_serve_def vercel_config_error_def vercel_parse_request_def
  read_fields_def build_prompt_def vercel_call_and_clean_def vercel_process_reply_def
  vercel_upstream_failure_def vercel_candidate_text_def vercel_clean_and_send_def and_then_def
  res_json_def res_end_def no_body_status_def vercel_error_def vercel_error_details_def
  js_object_def js_or_def opt_prop_def reply_ok_def clean_json_def trim_def is_js_space_def

lemmas engine_defs =
  engine_def json_wellformed_def complete_def value_start_def after_value_def
  is_json_space_def is_digit_def is_hex_digit_def is_control_def int_to_string_def

lemmas example_defs =
  example_request_def recipe_body_def text_reply_def error_reply_def

lemma handler_calls:
  assumes "req_method req = ''POST''" "env = Some k" "k \<noteq> []" "prompt_of pf req = Some p"
  shows "handler pf env req up =
           ([ReadBody, Fetch (api_url MODEL_NAME k) (request_payload p)], call_and_clean pf up)"
  using assms
  by (auto simp: handler_def serve_def prompt_of_def split: sum.splits prod.splits)

lemma example_prompt:
  "prompt_of engine (example_request ''POST'' (Inr recipe_body)) =
     Some (prompt_head @ ''eggs, rice'' @ prompt_mid @ ''ar'' @ prompt_tail)"
  by (simp add: prompt_of_def parse_request_def read_fields_def build_prompt_def js_or_def
      example_defs)

lemma category_of_error_body:
  "error_category \<lparr>status = s, headers = h, content = error_body e m\<rparr> = Some e"
  by (simp add: error_category_def error_body_def js_object_def)

lemma category_of_error_body_details:
  "error_category \<lparr>status = s, headers = h, content = error_body_details e d m\<rparr> = Some e"
  by (cases d) (simp_all add: error_category_def error_body_details_def js_object_def)

lemma details_of_error_body_details:
  "error_details \<lparr>status = s, headers = h, content = error_body_details e d m\<rparr> = d"
  by (cases d) (simp_all add: error_details_def error_body_details_def js_object_def)

section \<open>Method and configuration checks\<close>

text \<open>
  C4. For every request that is not OPTIONS, when the secret API key is absent from the
  environment (or is the empty string, which the test \<^verbatim>\<open>!API_KEY\<close> treats alike), the
  handler returns 500 with error category "Configuration Error"; it performs no effect:
  the request body is not read and no outbound call is made.
\<close>

theorem config_error_first:
  assumes "req_method req \<noteq> ''OPTIONS''" "env = None \<or> env = Some []"
  shows "handler pf env req up =
           ([], Inr \<lparr>status = 500, headers = cors_headers,
                     content = error_body ''Configuration Error''
                       ''Configuration Error: GEMINI_API_KEY is not set on the server.''\<rparr>)
         \<and> (\<exists>r. snd (handler pf env req up) = Inr r
                \<and> error_category r = Some ''Configuration Error'')"
  using assms
  by (auto simp: handler_def config_error_def new_response_def category_of_error_body)

theorem config_error_first_witness:
  "req_method (example_request ''POST'' (Inr recipe_body)) \<noteq> ''OPTIONS''
   \<and> fst (handler engine None (example_request ''POST'' (Inr recipe_body))
             (text_reply 200 ''[]'')) = []
   \<and> outcome_status (snd (handler engine None (example_request ''POST'' (Inr recipe_body))
             (text_reply 200 ''[]''))) = Some 500"
proof -
  have h: "req_method (example_request ''POST'' (Inr recipe_body)) \<noteq> ''OPTIONS''"
    by (simp add: example_request_def)
  from config_error_first [OF h, of None engine "text_reply 200 ''[]''"] h
  show ?thesis by simp
qed

text \<open>
  C2, as amended. For every request whose method is neither POST nor OPTIONS, when the
  API key is set and not empty, the handler returns 405 with error category
  "Method Not Allowed", whatever the request body and the upstream are, and performs no
  effect. (Without the key the configuration check comes first and answers 500.)
\<close>

theorem method_not_allowed:
  assumes "req_method req \<noteq> ''POST''" "req_method req \<noteq> ''OPTIONS''" "env = Some k" "k \<noteq> []"
  shows "handler pf env req up =
           ([], Inr \<lparr>status = 405, headers = cors_headers,
                     content = error_body ''Method Not Allowed'' ''Method Not Allowed. Use POST.''\<rparr>)
         \<and> (\<exists>r. snd (handler pf env req up) = Inr r
                \<and> error_category r = Some ''Method Not Allowed'')"
  using assms
  by (simp add: handler_def serve_def new_response_def category_of_error_body)

theorem method_not_allowed_witness:
  "outcome_status (snd (handler engine (Some ''secret'') (example_request ''GET'' (Inl ''empty''))
      (FetchRejected ''unused''))) = Some 405"
proof -
  have "req_method (example_request ''GET'' (Inl ''empty'')) \<noteq> ''POST''"
    and "req_method (example_request ''GET'' (Inl ''empty'')) \<noteq> ''OPTIONS''"
    and "''secret'' \<noteq> []"
    by (simp_all add: example_request_def)
  from method_not_allowed [OF this(1,2) refl this(3), of engine "FetchRejected ''unused''"]
  show ?thesis by simp
qed

theorem method_check_after_key_check:
  "req_method (example_request ''GET'' (Inl ''empty'')) \<noteq> ''POST''
   \<and> req_method (example_request ''GET'' (Inl ''empty'')) \<noteq> ''OPTIONS''
   \<and> handler engine None (example_request ''GET'' (Inl ''empty'')) (FetchRejected ''unused'') =
       ([], Inr \<lparr>status = 500, headers = cors_headers,
                 content = Stringify (JObj
                   [(''error'', JStr ''Configuration Error''),
                    (''message'',
                     JStr ''Configuration Error: GEMINI_API_KEY is not set on the server.'')])\<rparr>)"
  by (simp add: netlify_defs example_defs)

section \<open>Reading the request\<close>

lemma invalid_body:
  assumes "req_method req = ''POST''" "env = Some k" "k \<noteq> []"
    and "body req = Inl m \<or> body req = Inr JNull"
  shows "handler pf env req up =
           ([ReadBody], Inr \<lparr>status = 400, headers = cors_headers,
               content = error_body ''Invalid JSON body'' ''Invalid request format.''\<rparr>)"
  using assms
  by (auto simp: handler_def serve_def parse_request_def read_fields_def new_response_def)

lemma missing_field:
  assumes "req_method req = ''POST''" "env = Some k" "k \<noteq> []"
    and "body req = Inr b" "get_prop (Some b) ''ingredients'' = Inr v" "\<not> truthy pf v"
  shows "handler pf env req up =
           ([ReadBody], Inr \<lparr>status = 400, headers = cors_headers,
               content = error_body ''Missing required field: ingredients''
                           ''Please provide ingredients.''\<rparr>)"
proof -
  from assms(5) have "b \<noteq> JNull" by auto
  then obtain l where "get_prop (Some b) ''lang'' = Inr l"
    by (cases b) simp_all
  with assms show ?thesis
    by (simp add: handler_def serve_def parse_request_def read_fields_def new_response_def)
qed

text \<open>
  C3, as amended. For every POST request with the API key present: if the body fails to
  decode as JSON, or decodes to null, the handler returns 400 with error category
  "Invalid JSON body"; if the body decodes to another value whose ingredients property is
  missing or falsy (undefined, null, false, zero, the empty string), it returns 400 with
  error category "Missing required field: ingredients"; and the missing-field answer is
  given only for a body that decoded.
\<close>

theorem request_errors:
  assumes "req_method req = ''POST''" "env = Some k" "k \<noteq> []"
  shows "(body req = Inl m \<or> body req = Inr JNull \<longrightarrow>
            handler pf env req up =
              ([ReadBody], Inr \<lparr>status = 400, headers = cors_headers,
                  content = error_body ''Invalid JSON body'' ''Invalid request format.''\<rparr>))
       \<and> (body req = Inr b \<and> get_prop (Some b) ''ingredients'' = Inr v \<and> \<not> truthy pf v \<longrightarrow>
            handler pf env req up =
              ([ReadBody], Inr \<lparr>status = 400, headers = cors_headers,
                  content = error_body ''Missing required field: ingredients''
                              ''Please provide ingredients.''\<rparr>))
       \<and> (snd (handler pf env req up) = Inr r
             \<and> error_category r = Some ''Missing required field: ingredients'' \<longrightarrow>
            (\<exists>b'. body req = Inr b' \<and> b' \<noteq> JNull))"
proof (intro conjI impI)
  assume "body req = Inl m \<or> body req = Inr JNull"
  with assms show "handler pf env req up =
      ([ReadBody], Inr \<lparr>status = 400, headers = cors_headers,
          content = error_body ''Invalid JSON body'' ''Invalid request format.''\<rparr>)"
    by (rule invalid_body)
next
  assume "body req = Inr b \<and> get_prop (Some b) ''ingredients'' = Inr v \<and> \<not> truthy pf v"
  with assms show "handler pf env req up =
      ([ReadBody], Inr \<lparr>status = 400, headers = cors_headers,
          content = error_body ''Missing required field: ingredients''
                      ''Please provide ingredients.''\<rparr>)"
    by (simp add: missing_field)
next
  assume a: "snd (handler pf env req up) = Inr r
             \<and> error_category r = Some ''Missing required field: ingredients''"
  show "\<exists>b'. body req = Inr b' \<and> b' \<noteq> JNull"
  proof (rule ccontr)
    assume "\<not> (\<exists>b'. body req = Inr b' \<and> b' \<noteq> JNull)"
    then have "(\<exists>m'. body req = Inl m') \<or> body req = Inr JNull"
      by (cases "body req") auto
    then obtain m' where "body req = Inl m' \<or> body req = Inr JNull" by blast
    from invalid_body [OF assms this, of pf up] a show False
      by (auto simp: category_of_error_body)
  qed
qed

theorem request_errors_witness:
  "handler engine (Some ''secret'') (example_request ''POST'' (Inl ''Unexpected end of JSON input''))
      (FetchRejected ''unused'') =
     ([ReadBody], Inr \<lparr>status = 400, headers = cors_headers,
         content = error_body ''Invalid JSON body'' ''Invalid request format.''\<rparr>)
   \<and> handler engine (Some ''secret'')
        (example_request ''POST'' (Inr (JObj [(''ingredients'', JStr []), (''lang'', JStr ''fr'')])))
        (FetchRejected ''unused'') =
     ([ReadBody], Inr \<lparr>status = 400, headers = cors_headers,
         content = error_body ''Missing required field: ingredients''
                     ''Please provide ingredients.''\<rparr>)
   \<and> handler engine (Some ''secret'') (example_request ''POST'' (Inr (JObj [(''lang'', JStr ''fr'')])))
        (FetchRejected ''unused'') =
     ([ReadBody], Inr \<lparr>status = 400, headers = cors_headers,
         content = error_body ''Missing required field: ingredients''
                     ''Please provide ingredients.''\<rparr>)"
proof -
  have k: "''secret'' \<noteq> []" by simp
  have p: "req_method (example_request ''POST'' b) = ''POST''" for b
    by (simp add: example_request_def)
  from request_errors [OF p refl k,
      of "Inl ''Unexpected end of JSON input''" "''Unexpected end of JSON input''" engine
        "FetchRejected ''unused''"]
  have 1: "handler engine (Some ''secret'')
      (example_request ''POST'' (Inl ''Unexpected end of JSON input'')) (FetchRejected ''unused'') =
     ([ReadBody], Inr \<lparr>status = 400, headers = cors_headers,
         content = error_body ''Invalid JSON body'' ''Invalid request format.''\<rparr>)"
    by (simp add: example_request_def)
  from request_errors [OF p refl k,
      of "Inr (JObj [(''ingredients'', JStr []), (''lang'', JStr ''fr'')])" _ engine
        "FetchRejected ''unused''" "JObj [(''ingredients'', JStr []), (''lang'', JStr ''fr'')]"
        "Some (JStr [])"]
  have 2: "handler engine (Some ''secret'')
        (example_request ''POST'' (Inr (JObj [(''ingredients'', JStr []), (''lang'', JStr ''fr'')])))
        (FetchRejected ''unused'') =
     ([ReadBody], Inr \<lparr>status = 400, headers = cors_headers,
         content = error_body ''Missing required field: ingredients''
                     ''Please provide ingredients.''\<rparr>)"
    by (simp add: example_request_def)
  from request_errors [OF p refl k,
      of "Inr (JObj [(''lang'', JStr ''fr'')])" _ engine
        "FetchRejected ''unused''" "JObj [(''lang'', JStr ''fr'')]" None]
  have 3: "handler engine (Some ''secret'')
        (example_request ''POST'' (Inr (JObj [(''lang'', JStr ''fr'')]))) (FetchRejected ''unused'') =
     ([ReadBody], Inr \<lparr>status = 400, headers = cors_headers,
         content = error_body ''Missing required field: ingredients''
                     ''Please provide ingredients.''\<rparr>)"
    by (simp add: example_request_def)
  from 1 2 3 show ?thesis by blast
qed

text \<open>The body \<^verbatim>\<open>null\<close> decodes, its ingredients are missing, and the answer is
  "Invalid JSON body": reading a property of null throws inside the \<^verbatim>\<open>try\<close> block.\<close>

theorem null_body_is_invalid:
  "handler engine (Some ''secret'') (example_request ''POST'' (Inr JNull)) (FetchRejected ''unused'') =
     ([ReadBody], Inr \<lparr>status = 400, headers = cors_headers,
         content = Stringify (JObj [(''error'', JStr ''Invalid JSON body''),
                                    (''message'', JStr ''Invalid request format.'')])\<rparr>)"
  by (simp add: netlify_defs example_defs)

text \<open>
  C8. For every POST body that decodes and has no lang property, the prompt that is
  built, and sent upstream, has "ar" as the language code.
\<close>

theorem default_language:
  assumes "req_method req = ''POST''" "env = Some k" "k \<noteq> []"
    and "body req = Inr b" "get_prop (Some b) ''lang'' = Inr None"
    and "get_prop (Some b) ''ingredients'' = Inr v" "truthy pf v" "to_string_val pf v = Inr i"
  shows "prompt_of pf req = Some (prompt_head @ i @ prompt_mid @ ''ar'' @ prompt_tail)
       \<and> fst (handler pf env req up) =
           [ReadBody,
            Fetch (api_url MODEL_NAME k)
              (request_payload (prompt_head @ i @ prompt_mid @ ''ar'' @ prompt_tail))]"
proof -
  have "prompt_of pf req = Some (prompt_head @ i @ prompt_mid @ ''ar'' @ prompt_tail)"
    using assms(4-8)
    by (simp add: prompt_of_def parse_request_def read_fields_def js_or_def build_prompt_def)
  with handler_calls [OF assms(1-3) this] show ?thesis by simp
qed

theorem default_language_witness:
  "fst (handler engine (Some ''secret'') (example_request ''POST'' (Inr recipe_body))
          (FetchRejected ''offline'')) =
     [ReadBody,
      Fetch (api_url MODEL_NAME ''secret'')
        (request_payload (prompt_head @ ''eggs, rice'' @ prompt_mid @ ''ar'' @ prompt_tail))]"
proof -
  have "req_method (example_request ''POST'' (Inr recipe_body)) = ''POST''"
    and "''secret'' \<noteq> []"
    and "body (example_request ''POST'' (Inr recipe_body)) = Inr recipe_body"
    and "get_prop (Some recipe_body) ''lang'' = Inr None"
    and "get_prop (Some recipe_body) ''ingredients'' = Inr (Some (JStr ''eggs, rice''))"
    and "truthy engine (Some (JStr ''eggs, rice''))"
    and "to_string_val engine (Some (JStr ''eggs, rice'')) = Inr ''eggs, rice''"
    by (simp_all add: example_defs)
  from default_language [OF this(1) refl this(2-7), of "FetchRejected ''offline''"]
  show ?thesis by simp
qed

section \<open>The upstream reply\<close>

lemma call_failure:
  assumes "process_reply pf up = Inl e"
  shows "call_and_clean pf up =
           Inr \<lparr>status = 500, headers = cors_headers,
                content = error_body_details ''Processing Error'' (Some (JStr (message_of pf e)))
                            ''Failed to process AI response.''\<rparr>"
  using assms by (simp add: call_and_clean_def new_response_def)

lemma upstream_failure_relays:
  assumes "get_prop (Some responseJson) ''error'' = Inr err" "relayable st"
    and "details = js_or pf (opt_prop err ''message'') (Some (JStr ''Unknown error''))"
    and "to_string_val pf details = Inr m"
  shows "upstream_failure pf st responseJson =
           Inr \<lparr>status = st, headers = cors_headers,
                content = error_body_details ''Gemini API failed'' details
                            (''Gemini API Error: '' @ m)\<rparr>"
  using assms
  by (auto simp: upstream_failure_def relayable_def new_response_def Let_def)

text \<open>
  C6, as amended. For every upstream reply whose body decodes to a JSON value other than
  null, whose status is one that a response with a body can carry (200 to 599, not 204,
  205 or 304), and for which the call did not succeed or the decoded body has a truthy
  error property, the handler returns an error with category "Gemini API failed", the
  upstream status, and as details the upstream error message, or "Unknown error" when
  that message is absent or falsy, provided the details convert to a string.
\<close>

theorem upstream_error_relayed:
  assumes "req_method req = ''POST''" "env = Some k" "k \<noteq> []" "prompt_of pf req = Some p"
    and "up = Reply st (Inr responseJson)"
    and "get_prop (Some responseJson) ''error'' = Inr err"
    and "\<not> reply_ok st \<or> truthy pf err"
    and "relayable st"
    and "details = js_or pf (opt_prop err ''message'') (Some (JStr ''Unknown error''))"
    and "to_string_val pf details = Inr m"
  shows "\<exists>r. snd (handler pf env req up) = Inr r \<and> status r = st
             \<and> error_category r = Some ''Gemini API failed''
             \<and> error_details r = details"
proof -
  have "process_reply pf up = upstream_failure pf st responseJson"
    using assms(5-7) by (auto simp: process_reply_def)
  with upstream_failure_relays [OF assms(6,8,9,10)] handler_calls [OF assms(1-4)]
  show ?thesis
    by (simp add: call_and_clean_def category_of_error_body_details
        details_of_error_body_details)
qed

theorem upstream_error_relayed_witness:
  "\<exists>r. snd (handler engine (Some ''secret'') (example_request ''POST'' (Inr recipe_body))
              (error_reply 429 ''quota exceeded'')) = Inr r
       \<and> status r = 429
       \<and> error_category r = Some ''Gemini API failed''
       \<and> error_details r = Some (JStr ''quota exceeded'')"
proof -
  have "req_method (example_request ''POST'' (Inr recipe_body)) = ''POST''"
    and "''secret'' \<noteq> []"
    and "error_reply 429 ''quota exceeded'' =
           Reply 429 (Inr (JObj [(''error'', JObj [(''message'', JStr ''quota exceeded'')])]))"
    and "get_prop (Some (JObj [(''error'', JObj [(''message'', JStr ''quota exceeded'')])])) ''error''
           = Inr (Some (JObj [(''message'', JStr ''quota exceeded'')]))"
    and "\<not> reply_ok 429 \<or> truthy engine (Some (JObj [(''message'', JStr ''quota exceeded'')]))"
    and "relayable 429"
    and "Some (JStr ''quota exceeded'') =
           js_or engine (opt_prop (Some (JObj [(''message'', JStr ''quota exceeded'')])) ''message'')
             (Some (JStr ''Unknown error''))"
    and "to_string_val engine (Some (JStr ''quota exceeded'')) = Inr ''quota exceeded''"
    by (simp_all add: example_defs reply_ok_def relayable_def js_or_def opt_prop_def)
  from upstream_error_relayed [OF this(1) refl this(2) example_prompt this(3-8)]
  show ?thesis .
qed

text \<open>An upstream 502 whose body is not JSON: the call did not succeed, and the answer is
  a Processing Error at 500, since decoding the body throws before the status is looked at.\<close>

theorem undecodable_failure_is_processing_error:
  "snd (handler engine (Some ''secret'') (example_request ''POST'' (Inr recipe_body))
          (Reply 502 (Inl ''Unexpected token < in JSON at position 0''))) =
     Inr \<lparr>status = 500, headers = cors_headers,
          content = Stringify (JObj
            [(''error'', JStr ''Processing Error''),
             (''details'', JStr ''Unexpected token < in JSON at position 0''),
             (''message'', JStr ''Failed to process AI response.'')])\<rparr>"
  by (simp add: netlify_defs example_defs engine_def)

text \<open>
  C7. For every upstream success reply (a status of 200 to 299 and no truthy error
  property), if the extracted candidate text is absent or falsy, or the cleaned text fails
  to parse as JSON, the handler returns status 500 with error category
  "Processing Error"; so it does not return 200 there.
\<close>

theorem processing_error:
  assumes "req_method req = ''POST''" "env = Some k" "k \<noteq> []" "prompt_of pf req = Some p"
    and "up = Reply st (Inr responseJson)" "reply_ok st"
    and "get_prop (Some responseJson) ''error'' = Inr err" "\<not> truthy pf err"
    and "candidate_text responseJson = Inr candidateText"
    and "\<not> truthy pf candidateText
         \<or> (\<exists>t. candidateText = Some (JStr t) \<and> \<not> json_ok pf (clean_json t))"
  shows "\<exists>r. snd (handler pf env req up) = Inr r \<and> status r = 500
             \<and> error_category r = Some ''Processing Error''"
proof -
  have "\<exists>e. process_reply pf up = Inl e"
    using assms(5-10)
    by (auto simp: process_reply_def clean_and_validate_def Let_def split: option.splits json.splits)
  then obtain e where "process_reply pf up = Inl e" ..
  from call_failure [OF this] handler_calls [OF assms(1-4)]
  show ?thesis by (simp add: category_of_error_body_details)
qed

theorem processing_error_witness:
  "\<exists>r. snd (handler engine (Some ''secret'') (example_request ''POST'' (Inr recipe_body))
              (text_reply 200 ''not json'')) = Inr r
       \<and> status r = 500 \<and> error_category r = Some ''Processing Error''"
proof -
  let ?reply = "JObj [(''candidates'',
       JArr [JObj [(''content'', JObj [(''parts'', JArr [JObj [(''text'', JStr ''not json'')]])])]])]"
  have c: "clean_json ''not json'' = ''not json''"
    by (simp add: clean_json_def trim_def is_js_space_def)
  have "\<not> json_ok engine (clean_json ''not json'')"
    unfolding c by (simp add: engine_defs)
  then have bad: "\<not> truthy engine (Some (JStr ''not json''))
         \<or> (\<exists>t. Some (JStr ''not json'') = Some (JStr t) \<and> \<not> json_ok engine (clean_json t))"
    by (intro disjI2 exI [of _ "''not json''"] conjI refl)
  have "req_method (example_request ''POST'' (Inr recipe_body)) = ''POST''"
    and "''secret'' \<noteq> []"
    and "text_reply 200 ''not json'' = Reply 200 (Inr ?reply)"
    and "reply_ok 200"
    and "get_prop (Some ?reply) ''error'' = Inr None"
    and "\<not> truthy engine None"
    and "candidate_text ?reply = Inr (Some (JStr ''not json''))"
    by (simp_all add: example_defs reply_ok_def candidate_text_def opt_prop_def opt_index0_def)
  from processing_error [OF this(1) refl this(2) example_prompt this(3-7) bad]
  show ?thesis .
qed

text \<open>
  C10. The success path checks nothing beyond well-formedness: for every upstream success
  reply whose candidate text is a string and whose cleaned text parses as JSON, of whatever
  shape, the handler returns the cleaned text as it is with status 200. (\<^verbatim>\<open>JSON.parse\<close>
  rejects the empty string.)
\<close>

theorem verbatim_success:
  assumes "req_method req = ''POST''" "env = Some k" "k \<noteq> []" "prompt_of pf req = Some p"
    and "up = Reply st (Inr responseJson)" "reply_ok st"
    and "get_prop (Some responseJson) ''error'' = Inr err" "\<not> truthy pf err"
    and "candidate_text responseJson = Inr (Some (JStr t))"
    and "\<not> json_ok pf []" "json_ok pf (clean_json t)"
  shows "snd (handler pf env req up) =
           Inr \<lparr>status = 200, headers = cors_headers, content = Text (clean_json t)\<rparr>"
proof -
  have "t \<noteq> []"
    using assms(10,11) by (auto simp: clean_json_def trim_def)
  then have "process_reply pf up =
           Inr \<lparr>status = 200, headers = cors_headers, content = Text (clean_json t)\<rparr>"
    using assms(5-9,11)
    by (simp add: process_reply_def clean_and_validate_def new_response_def)
  with handler_calls [OF assms(1-4)] show ?thesis
    by (simp add: call_and_clean_def)
qed

theorem verbatim_success_witness:
  \<open>snd (handler engine (Some ''secret'') (example_request ''POST'' (Inr recipe_body))
          (text_reply 200 '' {"note": "none today", "count": 0} '')) =
     Inr \<lparr>status = 200, headers = cors_headers,
          content = Text ''{"note": "none today", "count": 0}''\<rparr>\<close>
proof -
  let ?t = \<open>'' {"note": "none today", "count": 0} ''\<close>
  let ?reply = "JObj [(''candidates'',
       JArr [JObj [(''content'', JObj [(''parts'', JArr [JObj [(''text'', JStr ?t)]])])]])]"
  have c: \<open>clean_json ?t = ''{"note": "none today", "count": 0}''\<close>
    by (simp add: clean_json_def trim_def is_js_space_def)
  have ok: "json_ok engine (clean_json ?t)"
    unfolding c by (simp add: engine_defs)
  have "req_method (example_request ''POST'' (Inr recipe_body)) = ''POST''"
    and "''secret'' \<noteq> []"
    and "text_reply 200 ?t = Reply 200 (Inr ?reply)"
    and "reply_ok 200"
    and "get_prop (Some ?reply) ''error'' = Inr None"
    and "\<not> truthy engine None"
    and "candidate_text ?reply = Inr (Some (JStr ?t))"
    and "\<not> json_ok engine []"
    by (simp_all add: example_defs reply_ok_def candidate_text_def opt_prop_def opt_index0_def
        engine_defs)
  from verbatim_success [OF this(1) refl this(2) example_prompt this(3-8) ok]
  show ?thesis unfolding c .
qed

section \<open>The cleaning step\<close>

lemma take7_fence: "take 7 t = ''```json'' \<Longrightarrow> take 3 t = ''```''"
proof -
  assume "take 7 t = ''```json''"
  then have "take 3 (take 7 t) = take 3 ''```json''" by (rule arg_cong)
  then show ?thesis by simp
qed

lemma strip_keep:
  assumes "take 3 (c # cs) \<noteq> ''```''"
  shows "strip_fences (c # cs) = c # strip_fences cs"
proof -
  from assms have "take 7 (c # cs) \<noteq> ''```json''" using take7_fence by blast
  with assms show ?thesis by (subst strip_fences.simps) (simp only: if_False)
qed

lemma strip_fence:
  assumes "take 3 (c # cs) = ''```''" "take 7 (c # cs) \<noteq> ''```json''"
  shows "strip_fences (c # cs) = strip_fences (drop 3 (c # cs))"
  using assms by (subst strip_fences.simps) (simp only: if_False if_True simp_thms)

lemma strip_json:
  assumes "take 7 (c # cs) = ''```json''"
  shows "strip_fences (c # cs) = strip_fences (drop 7 (c # cs))"
  using assms by (subst strip_fences.simps) (simp only: if_True simp_thms)

lemma no_fence_Cons:
  "\<not> has_fence (c # cs) \<longleftrightarrow> take 3 (c # cs) \<noteq> ''```'' \<and> \<not> has_fence cs"
  unfolding has_fence.simps by blast

lemma strip_fences_id: "\<not> has_fence t \<Longrightarrow> strip_fences t = t"
proof (induction t)
  case Nil
  then show ?case by simp
next
  case (Cons c cs)
  then have "take 3 (c # cs) \<noteq> ''```''" "\<not> has_fence cs"
    unfolding no_fence_Cons by blast+
  with Cons.IH strip_keep show ?case by metis
qed

lemma short_no_fence: "length a < 3 \<Longrightarrow> take 3 a \<noteq> ''```''"
proof
  assume "length a < 3" "take 3 a = ''```''"
  then have "length (take 3 a) = length ''```''" by (simp only:)
  with \<open>length a < 3\<close> show False by simp
qed

lemma strip_fences_close: "\<not> has_fence a \<Longrightarrow> strip_fences (a @ ''```'') = a"
proof (induction a)
  case Nil
  then show ?case by simp
next
  case (Cons c cs)
  then have nf: "take 3 (c # cs) \<noteq> ''```''" and nfc: "\<not> has_fence cs"
    unfolding no_fence_Cons by blast+
  show ?case
  proof (cases "take 3 (c # (cs @ ''```'')) = ''```''")
    case False
    from strip_keep [OF False] Cons.IH [OF nfc] show ?thesis by simp
  next
    case True
    have "length cs < 2"
    proof (rule ccontr)
      assume "\<not> length cs < 2"
      then have "take 3 (c # (cs @ ''```'')) = take 3 (c # cs)" by simp
      with True nf show False by metis
    qed
    then consider "cs = []" | d where "cs = [d]"
      by (cases cs; cases "tl cs") auto
    then show ?thesis
    proof cases
      case 1
      with True show ?thesis by simp
    next
      case 2
      with True show ?thesis by simp
    qed
  qed
qed

lemma clean_fenced:
  assumes "\<not> has_fence mid"
  shows "clean_json (''```json'' @ mid @ ''```'') = trim mid"
proof -
  have "strip_fences (''```json'' @ mid @ ''```'') = strip_fences (mid @ ''```'')"
    by simp
  with strip_fences_close [OF assms] show ?thesis
    by (simp only: clean_json_def)
qed

lemma strip_two: "take 2 (strip_fences t) = ''``'' \<Longrightarrow> take 2 t = ''``''"
proof (cases t)
  case Nil
  assume "take 2 (strip_fences t) = ''``''"
  with Nil show ?thesis by simp
next
  case (Cons a as)
  assume h: "take 2 (strip_fences t) = ''``''"
  show ?thesis
  proof (cases as)
    case Nil
    with Cons h show ?thesis by simp
  next
    case (Cons b bs)
    with \<open>t = a # as\<close> h show ?thesis
      by (auto split: if_splits)
  qed
qed

lemma strip_fences_no_fence: "\<not> has_fence (strip_fences t)"
proof (induction t rule: strip_fences.induct)
  case 1
  then show ?case by simp
next
  case (2 c cs)
  show ?case
  proof (cases "take 7 (c # cs) = ''```json''")
    case True
    from 2(1) [OF True] strip_json [OF True] show ?thesis by metis
  next
    case nj: False
    show ?thesis
    proof (cases "take 3 (c # cs) = ''```''")
      case True
      from 2(2) [OF nj True] strip_fence [OF True nj] show ?thesis by metis
    next
      case False
      from 2(3) [OF nj False] have ih: "\<not> has_fence (strip_fences cs)" .
      have "take 3 (c # strip_fences cs) \<noteq> ''```''"
      proof
        assume a: "take 3 (c # strip_fences cs) = ''```''"
        then have "c = CHR 0x60" "take 2 (strip_fences cs) = ''``''" by simp_all
        with strip_two have "take 2 cs = ''``''" by blast
        with \<open>c = CHR 0x60\<close> have "take 3 (c # cs) = ''```''" by simp
        with False show False by blast
      qed
      with ih have "\<not> has_fence (c # strip_fences cs)"
        unfolding no_fence_Cons by blast
      with strip_keep [OF False] show ?thesis by metis
    qed
  qed
qed

lemma has_fence_append: "has_fence a \<or> has_fence b \<Longrightarrow> has_fence (a @ b)"
proof (induction a)
  case Nil
  then show ?case by simp
next
  case (Cons c cs)
  show ?case
  proof (cases "take 3 (c # cs) = ''```''")
    case True
    then have "length (c # cs) \<ge> 3"
      using short_no_fence [of "c # cs"] by (meson not_less)
    with True have "take 3 (c # (cs @ b)) = ''```''" by simp
    then have "has_fence (c # (cs @ b))" unfolding has_fence.simps by blast
    then show ?thesis by simp
  next
    case False
    with Cons have "has_fence (cs @ b)" unfolding has_fence.simps by blast
    then have "has_fence (c # (cs @ b))" unfolding has_fence.simps by blast
    then show ?thesis by simp
  qed
qed

lemma no_fence_dropWhile: "\<not> has_fence t \<Longrightarrow> \<not> has_fence (dropWhile P t)"
  by (metis has_fence_append takeWhile_dropWhile_id)

lemma no_fence_drop_end: "\<not> has_fence t \<Longrightarrow> \<not> has_fence (rev (dropWhile P (rev t)))"
proof -
  assume a: "\<not> has_fence t"
  have "t = rev (dropWhile P (rev t)) @ rev (takeWhile P (rev t))"
    by (metis rev_append rev_rev_ident takeWhile_dropWhile_id)
  with a has_fence_append show ?thesis by metis
qed

lemma clean_json_no_fence: "\<not> has_fence (clean_json t)"
  unfolding clean_json_def trim_def
  by (intro no_fence_drop_end no_fence_dropWhile strip_fences_no_fence)

lemma cleaned_text_returned:
  assumes "req_method req = ''POST''" "env = Some k" "k \<noteq> []" "prompt_of pf req = Some p"
    and "up = Reply st (Inr responseJson)" "reply_ok st"
    and "get_prop (Some responseJson) ''error'' = Inr err" "\<not> truthy pf err"
    and "candidate_text responseJson = Inr (Some (JStr t))"
    and "t \<noteq> []" "json_ok pf (clean_json t)"
  shows "snd (handler pf env req up) =
           Inr \<lparr>status = 200, headers = cors_headers, content = Text (clean_json t)\<rparr>"
proof -
  have "process_reply pf up =
           Inr \<lparr>status = 200, headers = cors_headers, content = Text (clean_json t)\<rparr>"
    using assms(5-11)
    by (simp add: process_reply_def clean_and_validate_def new_response_def)
  with handler_calls [OF assms(1-4)] show ?thesis
    by (simp add: call_and_clean_def)
qed

lemma space_not_backquote: "is_js_space c \<Longrightarrow> c \<noteq> CHR 0x60"
  by (auto simp: is_js_space_def)

lemma no_backquote_no_fence: "CHR 0x60 \<notin> set w \<Longrightarrow> \<not> has_fence w"
proof (induction w)
  case Nil
  then show ?case by simp
next
  case (Cons c cs)
  then have "c \<noteq> CHR 0x60" "\<not> has_fence cs" by auto
  moreover from \<open>c \<noteq> CHR 0x60\<close> have "take 3 (c # cs) \<noteq> ''```''" by auto
  ultimately show ?case unfolding no_fence_Cons by blast
qed

text \<open>No match starts inside a text that has no fence and does not end in a backquote,
  whatever follows it.\<close>

lemma strip_past:
  "\<not> has_fence a \<Longrightarrow> a = [] \<or> last a \<noteq> CHR 0x60 \<Longrightarrow>
     strip_fences (a @ t) = a @ strip_fences t"
proof (induction a)
  case Nil
  then show ?case by simp
next
  case (Cons c cs)
  then have nf: "take 3 (c # cs) \<noteq> ''```''" and nfc: "\<not> has_fence cs"
    unfolding no_fence_Cons by blast+
  from Cons.prems(2) have lst: "last (c # cs) \<noteq> CHR 0x60" by simp
  have tl: "cs = [] \<or> last cs \<noteq> CHR 0x60"
    using lst by (cases cs) auto
  have "take 3 (c # (cs @ t)) \<noteq> ''```''"
  proof
    assume eq: "take 3 (c # (cs @ t)) = ''```''"
    show False
    proof (cases "length cs < 2")
      case False
      then have "take 3 (c # (cs @ t)) = take 3 (c # cs)" by simp
      with eq nf show False by metis
    next
      case True
      then consider "cs = []" | d where "cs = [d]"
        by (cases cs; cases "tl cs") auto
      then show False
      proof cases
        case 1
        with eq lst show False by simp
      next
        case 2
        with eq lst show False by simp
      qed
    qed
  qed
  from strip_keep [OF this] Cons.IH [OF nfc tl] show ?case by simp
qed

lemma strip_open_bare: "take 4 t \<noteq> ''json'' \<Longrightarrow> strip_fences (''```'' @ t) = strip_fences t"
proof -
  assume a: "take 4 t \<noteq> ''json''"
  have "take 7 (''```'' @ t) \<noteq> ''```json''"
  proof
    assume "take 7 (''```'' @ t) = ''```json''"
    then have "take 4 t = ''json''" by simp
    with a show False by blast
  qed
  moreover have "take 3 (''```'' @ t) = ''```''" by simp
  ultimately have "strip_fences (''```'' @ t) = strip_fences (drop 3 (''```'' @ t))"
    using strip_fence [of "CHR 0x60" "''``'' @ t"] by simp
  then show ?thesis by simp
qed

lemma strip_open_json: "strip_fences (''```json'' @ t) = strip_fences t"
  by simp

lemma strip_fences_close_spaces:
  assumes "\<forall>c\<in>set w. is_js_space c"
  shows "\<not> has_fence a \<Longrightarrow> strip_fences (a @ ''```'' @ w) = a @ w"
proof (induction a)
  case Nil
  have w: "\<not> has_fence w"
    using assms space_not_backquote by (intro no_backquote_no_fence) blast
  have "take 4 w \<noteq> ''json''"
  proof
    assume "take 4 w = ''json''"
    then obtain v where "w = CHR ''j'' # v" by (cases w) auto
    with assms show False by (simp add: is_js_space_def)
  qed
  from strip_open_bare [OF this] strip_fences_id [OF w] show ?case by simp
next
  case (Cons c cs)
  then have nf: "take 3 (c # cs) \<noteq> ''```''" and nfc: "\<not> has_fence cs"
    unfolding no_fence_Cons by blast+
  have bw: "CHR 0x60 \<notin> set w" using assms space_not_backquote by blast
  show ?case
  proof (cases "take 3 (c # (cs @ ''```'' @ w)) = ''```''")
    case False
    from strip_keep [OF False] Cons.IH [OF nfc] show ?thesis by simp
  next
    case True
    have "length cs < 2"
    proof (rule ccontr)
      assume "\<not> length cs < 2"
      then have "take 3 (c # (cs @ ''```'' @ w)) = take 3 (c # cs)" by simp
      with True nf show False by metis
    qed
    then consider "cs = []" | d where "cs = [d]"
      by (cases cs; cases "tl cs") auto
    then show ?thesis
    proof cases
      case 1
      with True have c: "c = CHR 0x60" by simp
      have "\<not> has_fence (CHR 0x60 # w)"
        using bw no_backquote_no_fence [OF bw] by (cases w; cases "tl w") auto
      from strip_fences_id [OF this] 1 c show ?thesis by simp
    next
      case 2
      with True have c: "c = CHR 0x60" "d = CHR 0x60" by simp_all
      have "\<not> has_fence (CHR 0x60 # CHR 0x60 # w)"
        using bw no_backquote_no_fence [OF bw] by (cases w; cases "tl w") auto
      from strip_fences_id [OF this] 2 c show ?thesis by simp
    qed
  qed
qed

lemma take4_closed:
  assumes "take 4 mid \<noteq> ''json''"
  shows "take 4 (mid @ ''```'' @ w) \<noteq> ''json''"
proof (cases "4 \<le> length mid")
  case True
  with assms show ?thesis by simp
next
  case False
  then have n: "length mid < 4" by simp
  show ?thesis
  proof
    assume eq: "take 4 (mid @ ''```'' @ w) = ''json''"
    have "(mid @ CHR 0x60 # (''``'' @ w)) ! length mid = CHR 0x60"
      by (rule nth_append_length)
    moreover have "mid @ ''```'' @ w = mid @ CHR 0x60 # (''``'' @ w)" by simp
    ultimately have "(mid @ ''```'' @ w) ! length mid = CHR 0x60" by (simp only:)
    moreover from n have "take 4 (mid @ ''```'' @ w) ! length mid = (mid @ ''```'' @ w) ! length mid"
      by (rule nth_take)
    ultimately have "''json'' ! length mid = CHR 0x60" using eq by (simp only:)
    moreover from n have "length mid = 0 \<or> length mid = 1 \<or> length mid = 2 \<or> length mid = 3"
      by arith
    ultimately show False by auto
  qed
qed

lemma trim_spaces:
  assumes "\<forall>c\<in>set w1. is_js_space c" "\<forall>c\<in>set w2. is_js_space c"
  shows "trim (w1 @ m @ w2) = trim m"
proof -
  have 1: "dropWhile is_js_space (w1 @ m @ w2) = dropWhile is_js_space (m @ w2)"
    using assms(1) by (simp add: dropWhile_append2)
  show ?thesis
  proof (cases "\<forall>c\<in>set m. is_js_space c")
    case True
    with assms(2) have "dropWhile is_js_space (m @ w2) = []" "dropWhile is_js_space m = []"
      by auto
    then show ?thesis unfolding trim_def 1 by (simp only:)
  next
    case False
    then obtain x where "x \<in> set m" "\<not> is_js_space x" by blast
    then have 2: "dropWhile is_js_space (m @ w2) = dropWhile is_js_space m @ w2"
      by (rule dropWhile_append1)
    have 3: "dropWhile is_js_space (rev w2 @ rev (dropWhile is_js_space m))
                     = dropWhile is_js_space (rev (dropWhile is_js_space m))"
      by (rule dropWhile_append2) (use assms(2) in auto)
    show ?thesis unfolding trim_def 1 2 rev_append 3 ..
  qed
qed

lemma trim_id:
  assumes "m = [] \<or> (\<not> is_js_space (hd m) \<and> \<not> is_js_space (last m))"
  shows "trim m = m"
proof (cases m)
  case Nil
  then show ?thesis by (simp add: trim_def)
next
  case (Cons c cs)
  with assms have h: "\<not> is_js_space c" and l: "\<not> is_js_space (last m)" by auto
  from h Cons have 1: "dropWhile is_js_space m = m" by simp
  from Cons have r: "rev m = last m # rev (butlast m)"
    by (simp add: rev_eq_Cons_iff)
  have "dropWhile is_js_space (last m # rev (butlast m)) = last m # rev (butlast m)"
    using l by simp
  then have 2: "dropWhile is_js_space (rev m) = rev m" unfolding r .
  show ?thesis unfolding trim_def 1 2 by simp
qed

lemma clean_fenced_spaces:
  assumes "\<forall>c\<in>set w1. is_js_space c" "\<forall>c\<in>set w2. is_js_space c" "\<not> has_fence mid"
    and "fence = ''```json'' \<or> (fence = ''```'' \<and> take 4 mid \<noteq> ''json'')"
  shows "clean_json (w1 @ fence @ mid @ ''```'' @ w2) = trim mid"
proof -
  have w1: "\<not> has_fence w1" "w1 = [] \<or> last w1 \<noteq> CHR 0x60"
    using assms(1) space_not_backquote no_backquote_no_fence [of w1]
    by (blast, metis last_in_set)
  have "strip_fences (fence @ mid @ ''```'' @ w2) = strip_fences (mid @ ''```'' @ w2)"
    using assms(4) strip_open_bare [OF take4_closed, of mid w2] strip_open_json
    by (metis append.assoc)
  with strip_past [OF w1] strip_fences_close_spaces [OF assms(2,3)]
  have "strip_fences (w1 @ fence @ mid @ ''```'' @ w2) = w1 @ mid @ w2" by simp
  with trim_spaces [OF assms(1,2)] show ?thesis by (simp add: clean_json_def)
qed

lemma has_fence_iff: "has_fence t \<longleftrightarrow> (\<exists>u v. t = u @ ''```'' @ v)"
proof
  show "has_fence t \<Longrightarrow> \<exists>u v. t = u @ ''```'' @ v"
  proof (induction t)
    case Nil
    then show ?case by simp
  next
    case (Cons c cs)
    show ?case
    proof (cases "take 3 (c # cs) = ''```''")
      case True
      have "c # cs = take 3 (c # cs) @ drop 3 (c # cs)" by (simp only: append_take_drop_id)
      with True have "c # cs = [] @ ''```'' @ drop 3 (c # cs)" by (simp only: append_Nil)
      then show ?thesis by blast
    next
      case False
      with Cons.prems have "has_fence cs" unfolding has_fence.simps by blast
      with Cons.IH obtain u v where "cs = u @ ''```'' @ v" by blast
      then have "c # cs = (c # u) @ ''```'' @ v" by simp
      then show ?thesis by blast
    qed
  qed
next
  assume "\<exists>u v. t = u @ ''```'' @ v"
  then obtain u v where t: "t = u @ ''```'' @ v" by blast
  have "has_fence (''```'' @ v)" by simp
  with has_fence_append [of u "''```'' @ v"] t show "has_fence t" by blast
qed

text \<open>
  C5, as amended. The cleaning step removes every occurrence of the tokens "```json" and
  "```" from the extracted text, wherever it stands, going from left to right, and then
  the white space at both ends; all the other text is left as it is. So a text without
  "```" is trimmed and nothing else, and a text made of white space, a fence "```json" or
  "```", an interior without "```", the fence "```" and white space is cleaned to the
  trimmed interior, the interior unchanged (after a bare opening fence an interior that
  begins with json loses that word, which then belongs to the token). The cleaned text
  has no "```" left. For an upstream success reply whose text is not empty and whose
  cleaned text is well-formed JSON, the handler returns the cleaned text with status 200;
  so a fenced JSON array without "```" inside comes back bare.
\<close>

theorem fences_removed_everywhere:
  "clean_json t = trim (strip_fences t)
   \<and> (has_fence t \<longleftrightarrow> (\<exists>u v. t = u @ ''```'' @ v))
   \<and> (\<not> has_fence a \<longrightarrow> strip_fences a = a)
   \<and> (\<not> has_fence a \<and> (a = [] \<or> last a \<noteq> CHR 0x60) \<longrightarrow>
        strip_fences (a @ ''```json'' @ b) = a @ strip_fences b)
   \<and> (\<not> has_fence a \<and> (a = [] \<or> last a \<noteq> CHR 0x60) \<and> take 4 b \<noteq> ''json'' \<longrightarrow>
        strip_fences (a @ ''```'' @ b) = a @ strip_fences b)
   \<and> ((\<forall>c\<in>set pre. is_js_space c) \<and> (\<forall>c\<in>set post. is_js_space c)
        \<and> (m = [] \<or> (\<not> is_js_space (hd m) \<and> \<not> is_js_space (last m))) \<longrightarrow>
        trim (pre @ m @ post) = m)
   \<and> \<not> has_fence (clean_json t)
   \<and> (\<not> has_fence t \<longrightarrow> clean_json t = trim t)
   \<and> ((\<forall>c\<in>set pre. is_js_space c) \<and> (\<forall>c\<in>set post. is_js_space c) \<and> \<not> has_fence mid
        \<and> (fence = ''```json'' \<or> (fence = ''```'' \<and> take 4 mid \<noteq> ''json'')) \<longrightarrow>
        clean_json (pre @ fence @ mid @ ''```'' @ post) = trim mid)
   \<and> (req_method req = ''POST'' \<and> env = Some k \<and> k \<noteq> [] \<and> prompt_of pf req = Some p
        \<and> up = Reply st (Inr responseJson) \<and> reply_ok st
        \<and> get_prop (Some responseJson) ''error'' = Inr err \<and> \<not> truthy pf err
        \<and> candidate_text responseJson = Inr (Some (JStr t))
        \<and> t \<noteq> [] \<and> json_ok pf (clean_json t) \<longrightarrow>
      snd (handler pf env req up) =
        Inr \<lparr>status = 200, headers = cors_headers, content = Text (clean_json t)\<rparr>)"
proof (intro conjI impI)
  show "clean_json t = trim (strip_fences t)" by (rule clean_json_def)
next
  show "has_fence t \<longleftrightarrow> (\<exists>u v. t = u @ ''```'' @ v)" by (rule has_fence_iff)
next
  assume "\<not> has_fence a"
  then show "strip_fences a = a" by (rule strip_fences_id)
next
  assume "\<not> has_fence a \<and> (a = [] \<or> last a \<noteq> CHR 0x60)"
  then have "strip_fences (a @ ''```json'' @ b) = a @ strip_fences (''```json'' @ b)"
    using strip_past by blast
  with strip_open_json [of b] show "strip_fences (a @ ''```json'' @ b) = a @ strip_fences b"
    by (simp only:)
next
  assume h: "\<not> has_fence a \<and> (a = [] \<or> last a \<noteq> CHR 0x60) \<and> take 4 b \<noteq> ''json''"
  then have "strip_fences (a @ ''```'' @ b) = a @ strip_fences (''```'' @ b)"
    using strip_past by blast
  moreover from h have "strip_fences (''```'' @ b) = strip_fences b"
    using strip_open_bare by blast
  ultimately show "strip_fences (a @ ''```'' @ b) = a @ strip_fences b" by (simp only:)
next
  assume h: "(\<forall>c\<in>set pre. is_js_space c) \<and> (\<forall>c\<in>set post. is_js_space c)
        \<and> (m = [] \<or> (\<not> is_js_space (hd m) \<and> \<not> is_js_space (last m)))"
  then have "trim (pre @ m @ post) = trim m" using trim_spaces by blast
  moreover from h have "trim m = m" using trim_id by blast
  ultimately show "trim (pre @ m @ post) = m" by (simp only:)
next
  show "\<not> has_fence (clean_json t)" by (rule clean_json_no_fence)
next
  assume "\<not> has_fence t"
  then show "clean_json t = trim t" by (simp add: clean_json_def strip_fences_id)
next
  assume "(\<forall>c\<in>set pre. is_js_space c) \<and> (\<forall>c\<in>set post. is_js_space c) \<and> \<not> has_fence mid
        \<and> (fence = ''```json'' \<or> (fence = ''```'' \<and> take 4 mid \<noteq> ''json''))"
  then show "clean_json (pre @ fence @ mid @ ''```'' @ post) = trim mid"
    using clean_fenced_spaces by blast
next
  assume "req_method req = ''POST'' \<and> env = Some k \<and> k \<noteq> [] \<and> prompt_of pf req = Some p
        \<and> up = Reply st (Inr responseJson) \<and> reply_ok st
        \<and> get_prop (Some responseJson) ''error'' = Inr err \<and> \<not> truthy pf err
        \<and> candidate_text responseJson = Inr (Some (JStr t))
        \<and> t \<noteq> [] \<and> json_ok pf (clean_json t)"
  then show "snd (handler pf env req up) =
        Inr \<lparr>status = 200, headers = cors_headers, content = Text (clean_json t)\<rparr>"
    using cleaned_text_returned by blast
qed

theorem fences_removed_everywhere_witness:
  \<open>snd (handler engine (Some ''secret'') (example_request ''POST'' (Inr recipe_body))
          (text_reply 200 ''```json\<newline>[{"title":"X"}]\<newline>```'')) =
     Inr \<lparr>status = 200, headers = cors_headers, content = Text ''[{"title":"X"}]''\<rparr>
   \<and> clean_json ''\<newline>```\<newline>[1, 2]\<newline>```\<newline>'' = ''[1, 2]''
   \<and> clean_json '' [1, 2]\<newline>'' = ''[1, 2]''\<close>
proof -
  let ?mid = \<open>''\<newline>[{"title":"X"}]\<newline>''\<close>
  let ?t = \<open>''```json'' @ ?mid @ ''```''\<close>
  let ?reply = "JObj [(''candidates'',
       JArr [JObj [(''content'', JObj [(''parts'', JArr [JObj [(''text'', JStr ?t)]])])]])]"
  note inst = fences_removed_everywhere [where t = ?t and mid = ?mid and pre = "[]"
      and post = "[]" and fence = "''```json''"
      and req = "example_request ''POST'' (Inr recipe_body)"
      and env = "Some ''secret''" and k = "''secret''" and pf = engine
      and p = "prompt_head @ ''eggs, rice'' @ prompt_mid @ ''ar'' @ prompt_tail"
      and up = "text_reply 200 ?t" and st = 200 and responseJson = ?reply and err = None]
  have sp: "\<forall>c\<in>set []. is_js_space c" by simp
  have nf: "\<not> has_fence ?mid" by simp
  have tr: \<open>trim ?mid = ''[{"title":"X"}]''\<close>
    by (simp add: trim_def is_js_space_def)
  from inst sp nf have "clean_json ([] @ ''```json'' @ ?mid @ ''```'' @ []) = trim ?mid"
    by blast
  then have c: "clean_json ?t = trim ?mid" by simp
  have ok: "json_ok engine (clean_json ?t)"
    unfolding c tr by (simp add: engine_defs)
  have "req_method (example_request ''POST'' (Inr recipe_body)) = ''POST''"
    and "Some ''secret'' = Some ''secret''"
    and "''secret'' \<noteq> []"
    and "text_reply 200 ?t = Reply 200 (Inr ?reply)"
    and "reply_ok 200"
    and "get_prop (Some ?reply) ''error'' = Inr None"
    and "\<not> truthy engine None"
    and "candidate_text ?reply = Inr (Some (JStr ?t))"
    and "?t \<noteq> []"
    by (simp_all add: example_defs reply_ok_def candidate_text_def opt_prop_def opt_index0_def)
  with inst example_prompt ok
  have "snd (handler engine (Some ''secret'') (example_request ''POST'' (Inr recipe_body))
          (text_reply 200 ?t)) =
        Inr \<lparr>status = 200, headers = cors_headers, content = Text (clean_json ?t)\<rparr>"
    by blast
  then have 1: \<open>snd (handler engine (Some ''secret'') (example_request ''POST'' (Inr recipe_body))
          (text_reply 200 ?t)) =
     Inr \<lparr>status = 200, headers = cors_headers, content = Text ''[{"title":"X"}]''\<rparr>\<close>
    unfolding c tr .
  let ?mid2 = "''\<newline>[1, 2]\<newline>''"
  have sp2: "\<forall>c\<in>set ''\<newline>''. is_js_space c" by (simp add: is_js_space_def)
  have nf2: "\<not> has_fence ?mid2" by simp
  have nj: "take 4 ?mid2 \<noteq> ''json''" by simp
  from fences_removed_everywhere [where mid = ?mid2 and pre = "''\<newline>''"
      and post = "''\<newline>''" and fence = "''```''"] sp2 nf2 nj
  have "clean_json (''\<newline>'' @ ''```'' @ ?mid2 @ ''```'' @ ''\<newline>'') = trim ?mid2"
    by blast
  then have 2: "clean_json ''\<newline>```\<newline>[1, 2]\<newline>```\<newline>'' = ''[1, 2]''"
    by (simp add: trim_def is_js_space_def)
  have "\<not> has_fence '' [1, 2]\<newline>''" by simp
  with fences_removed_everywhere [where t = "'' [1, 2]\<newline>''"]
  have "clean_json '' [1, 2]\<newline>'' = trim '' [1, 2]\<newline>''" by blast
  then have 3: "clean_json '' [1, 2]\<newline>'' = ''[1, 2]''"
    by (simp add: trim_def is_js_space_def)
  from 1 2 3 show ?thesis by simp
qed

text \<open>A text without any surrounding fence, and with three backquotes inside a JSON
  string: the interior is changed, and the changed text is returned with status 200.\<close>

theorem interior_fence_removed:
  \<open>snd (handler engine (Some ''secret'') (example_request ''POST'' (Inr recipe_body))
          (text_reply 200 ''["a```b"]'')) =
     Inr \<lparr>status = 200, headers = cors_headers, content = Text ''["ab"]''\<rparr>\<close>
  by (simp add: netlify_defs example_defs engine_defs)

section \<open>The two handlers compared\<close>

lemma opt_prop_get: "get_prop v n = Inr w \<Longrightarrow> opt_prop v n = w"
  by (cases v rule: nullish.cases) (simp_all add: opt_prop_def)

lemma opt_prop_fail: "get_prop v n = Inl e \<Longrightarrow> opt_prop v n = None"
  by (cases v rule: nullish.cases) (simp_all add: opt_prop_def)

lemma opt_index0_get: "get_index0 v = Inr w \<Longrightarrow> opt_index0 v = w"
  by (cases v rule: nullish.cases) (simp_all add: opt_index0_def)

lemma opt_index0_fail: "get_index0 v = Inl e \<Longrightarrow> opt_index0 v = None"
  by (cases v rule: nullish.cases) (simp_all add: opt_index0_def)

lemma opt_prop_undefined: "opt_prop None n = None"
  by (simp add: opt_prop_def)

lemma opt_index0_undefined: "opt_index0 None = None"
  by (simp add: opt_index0_def)

lemmas chain_defs =
  vercel_candidate_text_def candidate_text_def and_then_def opt_prop_undefined
  opt_index0_undefined

text \<open>Where the plain chain of property reads throws, the optional chain gives undefined;
  where it returns, both give the same value.\<close>

lemma chains_agree:
  "(\<exists>e. vercel_candidate_text d = Inl e
        \<and> (candidate_text d = Inr None \<or> (\<exists>e'. candidate_text d = Inl e')))
   \<or> (\<exists>v. vercel_candidate_text d = Inr v \<and> candidate_text d = Inr v)"
proof (cases "get_prop (Some d) ''candidates''")
  case (Inl e)
  then show ?thesis by (simp add: chain_defs)
next
  case c: (Inr c)
  show ?thesis
  proof (cases "get_index0 c")
    case (Inl e)
    with c opt_index0_fail [OF Inl] show ?thesis
      by (simp add: chain_defs)
  next
    case c0: (Inr c0)
    note o0 = opt_index0_get [OF c0]
    show ?thesis
    proof (cases "get_prop c0 ''content''")
      case (Inl e)
      with c c0 o0 opt_prop_fail [OF Inl] show ?thesis
        by (simp add: chain_defs)
    next
      case ct: (Inr ct)
      note o1 = opt_prop_get [OF ct]
      show ?thesis
      proof (cases "get_prop ct ''parts''")
        case (Inl e)
        with c c0 ct o0 o1 opt_prop_fail [OF Inl] show ?thesis
          by (simp add: chain_defs)
      next
        case ps: (Inr ps)
        note o2 = opt_prop_get [OF ps]
        show ?thesis
        proof (cases "get_index0 ps")
          case (Inl e)
          with c c0 ct ps o0 o1 o2 opt_index0_fail [OF Inl] show ?thesis
            by (simp add: chain_defs)
        next
          case p0: (Inr p0)
          note o3 = opt_index0_get [OF p0]
          show ?thesis
          proof (cases "get_prop p0 ''text''")
            case (Inl e)
            with c c0 ct ps p0 o0 o1 o2 o3 opt_prop_fail [OF Inl] show ?thesis
              by (simp add: chain_defs)
          next
            case (Inr t)
            with c c0 ct ps p0 o0 o1 o2 o3 opt_prop_get [OF Inr] show ?thesis
              by (simp add: chain_defs)
          qed
        qed
      qed
    qed
  qed
qed

lemma clean_agree:
  assumes "\<not> json_ok pf []"
  shows "agree (clean_and_validate pf v) (vercel_clean_and_send pf v)"
proof (cases v)
  case None
  then show ?thesis by (simp add: agree_def clean_and_validate_def vercel_clean_and_send_def)
next
  case (Some j)
  show ?thesis
  proof (cases j)
    case (JStr t)
    have "clean_json [] = []" by (simp add: clean_json_def trim_def)
    with assms Some JStr show ?thesis
      by (cases "t = []")
         (simp_all add: agree_def clean_and_validate_def vercel_clean_and_send_def Let_def
            new_response_def res_json_def)
  qed (simp_all add: Some agree_def clean_and_validate_def vercel_clean_and_send_def)
qed

lemma text_agree:
  assumes "\<not> json_ok pf []"
  shows "agree (case candidate_text d of Inl e \<Rightarrow> Inl e | Inr t \<Rightarrow> clean_and_validate pf t)
               (and_then (vercel_candidate_text d) (vercel_clean_and_send pf))"
proof -
  from chains_agree [of d] show ?thesis
  proof (elim disjE exE conjE)
    fix e assume "vercel_candidate_text d = Inl e" "candidate_text d = Inr None"
    then show ?thesis by (simp add: agree_def and_then_def clean_and_validate_def)
  next
    fix e e' assume "vercel_candidate_text d = Inl e" "candidate_text d = Inl e'"
    then show ?thesis by (simp add: agree_def and_then_def)
  next
    fix v assume "vercel_candidate_text d = Inr v" "candidate_text d = Inr v"
    with clean_agree [OF assms, of v] show ?thesis by (simp add: and_then_def)
  qed
qed

lemma failure_agree:
  assumes "comparable_reply pf (Reply st (Inr d))"
  shows "agree (upstream_failure pf st d) (vercel_upstream_failure pf st d)"
proof (cases "get_prop (Some d) ''error''")
  case (Inl e)
  then show ?thesis by (simp add: agree_def upstream_failure_def vercel_upstream_failure_def)
next
  case (Inr err)
  with assms obtain m where m: "to_string_val pf (opt_prop err ''message'') = Inr m"
    and st: "relayable st"
    by (auto split: sum.splits)
  have "\<exists>m'. to_string_val pf
           (js_or pf (opt_prop err ''message'') (Some (JStr ''Unknown error''))) = Inr m'"
    using m by (simp add: js_or_def)
  with Inr st show ?thesis
    by (auto simp: agree_def upstream_failure_def vercel_upstream_failure_def Let_def
        new_response_def res_json_def relayable_def)
qed

lemma reply_agree:
  assumes "\<not> json_ok pf []" "comparable_reply pf up"
  shows "agree (process_reply pf up) (vercel_process_reply pf up)"
proof (cases up)
  case (FetchRejected m)
  then show ?thesis by (simp add: agree_def process_reply_def vercel_process_reply_def)
next
  case (Reply st decoded)
  show ?thesis
  proof (cases decoded)
    case (Inl m)
    with Reply show ?thesis by (simp add: agree_def process_reply_def vercel_process_reply_def)
  next
    case (Inr d)
    with Reply assms(2)
    have fa: "agree (upstream_failure pf st d) (vercel_upstream_failure pf st d)"
      using failure_agree by blast
    show ?thesis
    proof (cases "get_prop (Some d) ''error''")
      case e: (Inl e)
      with Reply Inr fa show ?thesis
        by (simp add: process_reply_def vercel_process_reply_def agree_def)
    next
      case err: (Inr err)
      with Reply Inr fa text_agree [OF assms(1), of d] show ?thesis
        by (simp add: process_reply_def vercel_process_reply_def)
    qed
  qed
qed

lemma call_agree:
  assumes "\<not> json_ok pf []" "comparable_reply pf up"
  shows "outcome_status (call_and_clean pf up) = outcome_status (vercel_call_and_clean pf up)"
  using reply_agree [OF assms]
  by (auto simp: agree_def call_and_clean_def vercel_call_and_clean_def new_response_def
      res_json_def isl_def)

lemma parse_agree:
  "(\<exists>r r'. parse_request pf req = Inl (Inr r) \<and> vercel_parse_request pf req = Inl (Inr r')
       \<and> status r = status r')
   \<or> (\<exists>x. parse_request pf req = Inr x \<and> vercel_parse_request pf req = Inr x)"
  by (auto simp: parse_request_def vercel_parse_request_def new_response_def res_json_def Let_def
      split: sum.splits prod.splits)

lemma serve_agree:
  assumes "\<not> json_ok pf []" "comparable_reply pf up"
  shows "outcome_status (snd (serve pf k req up)) = outcome_status (snd (vercel_serve pf k req up))"
  using parse_agree [of pf req] call_agree [OF assms]
  by (auto simp: serve_def vercel_serve_def new_response_def res_json_def
      split: sum.splits prod.splits)

text \<open>
  C1, as amended. The two handlers answer with the same status, or both throw, for every
  request, every environment and every upstream behaviour in which a decoded reply has a
  status of 200 to 599 other than 204, 205 and 304 and an error message that converts to
  a string (\<^verbatim>\<open>JSON.parse\<close> rejecting the empty string). Their bodies are not the same:
  the error bodies have different texts and properties, and on success the first returns
  the cleaned text while the second serialises the parsed value again.
\<close>

theorem handlers_agree_on_status:
  assumes "\<not> json_ok pf []" "comparable_reply pf up"
  shows "outcome_status (snd (handler pf env req up))
           = outcome_status (snd (vercel_handler pf env req up))"
  using serve_agree [OF assms]
  by (auto simp: handler_def vercel_handler_def config_error_def vercel_config_error_def
      new_response_def res_json_def res_end_def split: option.splits)

theorem handlers_agree_on_status_witness:
  "outcome_status (snd (handler engine (Some ''secret'')
       (example_request ''POST'' (Inr recipe_body)) (error_reply 429 ''quota exceeded'')))
   = outcome_status (snd (vercel_handler engine (Some ''secret'')
       (example_request ''POST'' (Inr recipe_body)) (error_reply 429 ''quota exceeded'')))"
proof -
  have "\<not> json_ok engine []"
    by (simp add: engine_defs)
  moreover have "comparable_reply engine (error_reply 429 ''quota exceeded'')"
    by (simp add: error_reply_def relayable_def opt_prop_def)
  ultimately show ?thesis by (rule handlers_agree_on_status)
qed

text \<open>A GET request with the key present: both handlers answer 405, with different bodies.\<close>

theorem bodies_differ_on_get:
  "map_sum id (\<lambda>r. (status r, content r))
     (snd (handler engine (Some ''secret'') (example_request ''GET'' (Inl ''empty''))
        (FetchRejected ''unused''))) =
     Inr (405, Stringify (JObj [(''error'', JStr ''Method Not Allowed''),
                                 (''message'', JStr ''Method Not Allowed. Use POST.'')]))
   \<and> map_sum id (\<lambda>r. (status r, content r))
     (snd (vercel_handler engine (Some ''secret'') (example_request ''GET'' (Inl ''empty''))
        (FetchRejected ''unused''))) =
     Inr (405, Stringify (JObj [(''error'', JStr ''Method Not Allowed'')]))"
  by (simp add: netlify_defs vercel_defs example_defs)

text \<open>Outside the statuses above the two platforms part: handed an upstream 304 with an
  error body, the first handler cannot construct the response and answers 500, the second
  sends 304.\<close>

lemma statuses_differ_on_304:
  "outcome_status (snd (handler engine (Some ''secret'')
       (example_request ''POST'' (Inr recipe_body)) (error_reply 304 ''not modified''))) = Some 500
   \<and> outcome_status (snd (vercel_handler engine (Some ''secret'')
       (example_request ''POST'' (Inr recipe_body)) (error_reply 304 ''not modified''))) = Some 304"
  by (simp add: netlify_defs vercel_defs example_defs)

end
